theory Spec2Isabelle
  imports Complex_Main "HOL-Library.AList"
begin

section \<open>Order book (\<^verbatim>\<open>src/src/websocket.ts\<close>, class \<^verbatim>\<open>OrderBook\<close>)\<close>

text \<open>
  Prices and sizes are JavaScript numbers; the finite ones are modelled as \<^typ>\<open>real\<close>
  (\<^verbatim>\<open>NaN\<close> and the infinities have no counterpart here, and arithmetic is exact).
  A JavaScript \<^verbatim>\<open>Map<number, number>\<close> keeps its keys in insertion order, holds each key
  once, \<^verbatim>\<open>set\<close> overwrites in place or appends, \<^verbatim>\<open>delete\<close> removes: an association list
  with \<^const>\<open>AList.update\<close> and \<^const>\<open>AList.delete\<close>.

  A level of a snapshot is the pair of \<^verbatim>\<open>parseFloat(a.price)\<close> and \<^verbatim>\<open>parseFloat(a.size)\<close>;
  a change is \<^verbatim>\<open>(price, side, size)\<close> as \<^verbatim>\<open>applyChange\<close> receives it.
\<close>

type_synonym level = "real \<times> real"
type_synonym change = "real \<times> string \<times> real"

record OrderBook =
  asks :: "(real \<times> real) list"
  bids :: "(real \<times> real) list"

definition new_OrderBook :: OrderBook where
  "new_OrderBook = \<lparr>asks = [], bids = []\<rparr>"

definition set_ask :: "level \<Rightarrow> OrderBook \<Rightarrow> OrderBook" where
  "set_ask a book =
     (if snd a > 0 then book\<lparr>asks := AList.update (fst a) (snd a) (asks book)\<rparr> else book)"

definition set_bid :: "level \<Rightarrow> OrderBook \<Rightarrow> OrderBook" where
  "set_bid b book =
     (if snd b > 0 then book\<lparr>bids := AList.update (fst b) (snd b) (bids book)\<rparr> else book)"

definition applySnapshot :: "level list \<Rightarrow> level list \<Rightarrow> OrderBook \<Rightarrow> OrderBook" where
  "applySnapshot as bs book =
     (let book1 = book\<lparr>asks := []\<rparr>;
          book2 = fold set_ask as book1;
          book3 = book2\<lparr>bids := []\<rparr>
      in fold set_bid bs book3)"

definition applyChange :: "real \<Rightarrow> string \<Rightarrow> real \<Rightarrow> OrderBook \<Rightarrow> OrderBook" where
  "applyChange price side sz book =
     (if side = ''SELL'' then
        (if sz = 0 then book\<lparr>asks := AList.delete price (asks book)\<rparr>
         else book\<lparr>asks := AList.update price sz (asks book)\<rparr>)
      else if side = ''BUY'' then
        (if sz = 0 then book\<lparr>bids := AList.delete price (bids book)\<rparr>
         else book\<lparr>bids := AList.update price sz (bids book)\<rparr>)
      else book)"

text \<open>
  The loop of \<^verbatim>\<open>handleMessage\<close> over the changes of one \<^verbatim>\<open>price_change\<close> message.
\<close>

fun applyChanges :: "change list \<Rightarrow> OrderBook \<Rightarrow> OrderBook" where
  "applyChanges [] book = book"
| "applyChanges ((price, side, sz) # cs) book = applyChanges cs (applyChange price side sz book)"

text \<open>
  In \<^verbatim>\<open>getBestAsk\<close> the running \<^verbatim>\<open>best\<close> starts at \<^verbatim>\<open>Infinity\<close>, here \<^const>\<open>None\<close>: every
  finite price is below it. The final \<^verbatim>\<open>best === Infinity ? null : best\<close> maps it to \<^verbatim>\<open>null\<close>.
  \<^verbatim>\<open>getBestBid\<close> is the mirror image with \<^verbatim>\<open>-Infinity\<close>.
\<close>

definition ask_step :: "real \<Rightarrow> real option \<Rightarrow> real option" where
  "ask_step price best =
     (case best of None \<Rightarrow> Some price
      | Some b \<Rightarrow> if price < b then Some price else Some b)"

definition bid_step :: "real \<Rightarrow> real option \<Rightarrow> real option" where
  "bid_step price best =
     (case best of None \<Rightarrow> Some price
      | Some b \<Rightarrow> if price > b then Some price else Some b)"

definition book_getBestAsk :: "OrderBook \<Rightarrow> real option" where
  "book_getBestAsk book =
     (if length (asks book) = 0 then None
      else fold ask_step (map fst (asks book)) None)"

definition book_getBestBid :: "OrderBook \<Rightarrow> real option" where
  "book_getBestBid book =
     (if length (bids book) = 0 then None
      else fold bid_step (map fst (bids book)) None)"

datatype book_op = Snapshot "level list" "level list" | Change real string real

fun apply_op :: "book_op \<Rightarrow> OrderBook \<Rightarrow> OrderBook" where
  "apply_op (Snapshot as bs) book = applySnapshot as bs book"
| "apply_op (Change price side sz) book = applyChange price side sz book"

definition apply_ops :: "book_op list \<Rightarrow> OrderBook \<Rightarrow> OrderBook" where
  "apply_ops ops book = fold apply_op ops book"

text \<open>Every ask price is at or above every bid price.\<close>

definition uncrossed :: "OrderBook \<Rightarrow> bool" where
  "uncrossed book =
     list_all (\<lambda>a. list_all (\<lambda>q. q \<le> a) (map fst (bids book))) (map fst (asks book))"

text \<open>
  A change sequence that never crosses the book as it stands when the change is applied:
  a deletion is always fine, a \<^verbatim>\<open>SELL\<close> level must not lie below a resting bid, a \<^verbatim>\<open>BUY\<close>
  level must not lie above a resting ask.
\<close>

fun changes_uncrossed :: "change list \<Rightarrow> OrderBook \<Rightarrow> bool" where
  "changes_uncrossed [] book = True"
| "changes_uncrossed ((price, side, sz) # cs) book =
     ((sz = 0
       \<or> (if side = ''SELL'' then list_all (\<lambda>q. q \<le> price) (map fst (bids book))
          else if side = ''BUY'' then list_all (\<lambda>a. price \<le> a) (map fst (asks book))
          else True))
      \<and> changes_uncrossed cs (applyChange price side sz book))"


section \<open>Feed connector (\<^verbatim>\<open>src/src/websocket.ts\<close>, class \<^verbatim>\<open>OrderbookWatcher\<close>)\<close>

record Market =
  marketId :: string
  question :: string
  timeframe :: string
  startAt :: string
  expiresAt :: string
  yesTokenId :: string
  noTokenId :: string

datatype readyState = CONNECTING | OPEN | CLOSING | CLOSED

text \<open>
  \<^verbatim>\<open>books\<close>, \<^verbatim>\<open>bestAsks\<close> and \<^verbatim>\<open>bestBids\<close> are only read and written by key: maps.
  \<^verbatim>\<open>subscribedTokens\<close> is a \<^verbatim>\<open>Set<string>\<close> that \<^verbatim>\<open>Array.from\<close> lists in insertion order:
  a list without repetition. \<^verbatim>\<open>ws\<close> holds the ready state of the current socket, \<^const>\<open>None\<close>
  for \<^verbatim>\<open>null\<close>. The \<^verbatim>\<open>onUpdate\<close> callback and \<^verbatim>\<open>ws.send\<close> are effects: every operation
  returns the token identifiers it passed to \<^verbatim>\<open>onUpdate\<close> and the frames it sent, in order.
  Log lines are not modelled.
\<close>

record OrderbookWatcher =
  ws :: "readyState option"
  books :: "string \<rightharpoonup> OrderBook"
  bestAsks :: "string \<rightharpoonup> real"
  bestBids :: "string \<rightharpoonup> real"
  subscribedTokens :: "string list"
  reconnectDelay :: nat
  shouldRun :: bool
  totalUpdates :: nat

record frame =
  assets_ids :: "string list"
  frame_type :: string

definition new_OrderbookWatcher :: OrderbookWatcher where
  "new_OrderbookWatcher =
     \<lparr>ws = None, books = Map.empty, bestAsks = Map.empty, bestBids = Map.empty,
      subscribedTokens = [], reconnectDelay = 1000, shouldRun = True, totalUpdates = 0\<rparr>"

definition watcher_getBestAsk :: "OrderbookWatcher \<Rightarrow> string \<Rightarrow> real option" where
  "watcher_getBestAsk w tokenId = bestAsks w tokenId"

definition watcher_getBestBid :: "OrderbookWatcher \<Rightarrow> string \<Rightarrow> real option" where
  "watcher_getBestBid w tokenId = bestBids w tokenId"

definition sendSubscription :: "string list \<Rightarrow> OrderbookWatcher \<Rightarrow> frame list" where
  "sendSubscription tokenIds w =
     (if ws w \<noteq> Some OPEN then []
      else [\<lparr>assets_ids = tokenIds, frame_type = ''Book''\<rparr>])"

definition add_token ::
  "string \<Rightarrow> OrderbookWatcher \<times> string list \<Rightarrow> OrderbookWatcher \<times> string list" where
  "add_token tokenId acc =
     (let w = fst acc; newTokens = snd acc
      in if tokenId \<in> set (subscribedTokens w) then acc
         else (w\<lparr>subscribedTokens := subscribedTokens w @ [tokenId],
                 books := (books w)(tokenId \<mapsto> new_OrderBook)\<rparr>,
               newTokens @ [tokenId]))"

definition watcher_addMarkets ::
  "Market list \<Rightarrow> OrderbookWatcher \<Rightarrow> OrderbookWatcher \<times> frame list" where
  "watcher_addMarkets ms w =
     (let acc = fold (\<lambda>m acc. add_token (noTokenId m) (add_token (yesTokenId m) acc)) ms (w, []);
          w1 = fst acc; newTokens = snd acc
      in (w1, if length newTokens > 0 \<and> ws w1 = Some OPEN
              then sendSubscription newTokens w1 else []))"

definition remove_token :: "string \<Rightarrow> OrderbookWatcher \<Rightarrow> OrderbookWatcher" where
  "remove_token tokenId w =
     w\<lparr>subscribedTokens := removeAll tokenId (subscribedTokens w),
       books := (books w)(tokenId := None),
       bestAsks := (bestAsks w)(tokenId := None),
       bestBids := (bestBids w)(tokenId := None)\<rparr>"

definition watcher_removeMarkets :: "Market list \<Rightarrow> OrderbookWatcher \<Rightarrow> OrderbookWatcher" where
  "watcher_removeMarkets ms w =
     fold (\<lambda>m w. remove_token (noTokenId m) (remove_token (yesTokenId m) w)) ms w"

definition updateBestPrices ::
  "string \<Rightarrow> OrderBook \<Rightarrow> OrderbookWatcher \<Rightarrow> OrderbookWatcher \<times> string list" where
  "updateBestPrices tokenId book w =
     (let bestAsk = book_getBestAsk book;
          bestBid = book_getBestBid book;
          w1 = (case bestAsk of None \<Rightarrow> w
                | Some a \<Rightarrow> w\<lparr>bestAsks := (bestAsks w)(tokenId \<mapsto> a)\<rparr>);
          w2 = (case bestBid of None \<Rightarrow> w1
                | Some b \<Rightarrow> w1\<lparr>bestBids := (bestBids w1)(tokenId \<mapsto> b)\<rparr>)
      in if bestAsk \<noteq> None \<or> bestBid \<noteq> None
         then (w2\<lparr>totalUpdates := totalUpdates w2 + 1\<rparr>, [tokenId])
         else (w2, []))"

text \<open>
  A parsed frame. A field that is absent from the JSON object is \<^const>\<open>None\<close>; the levels
  and changes carry the numbers that \<^verbatim>\<open>parseFloat\<close> returns.
\<close>

record message =
  asset_id :: "string option"
  event_type :: "string option"
  msg_asks :: "level list option"
  msg_bids :: "level list option"
  msg_changes :: "change list option"

definition or_empty :: "'a list option \<Rightarrow> 'a list" where
  "or_empty x = (case x of None \<Rightarrow> [] | Some xs \<Rightarrow> xs)"

definition handleMessage ::
  "message \<Rightarrow> OrderbookWatcher \<Rightarrow> OrderbookWatcher \<times> string list" where
  "handleMessage msg w =
     (case asset_id msg of
        None \<Rightarrow> (w, [])
      | Some tokenId \<Rightarrow>
          if tokenId = [] then (w, [])
          else (case books w tokenId of
                  None \<Rightarrow> (w, [])
                | Some book \<Rightarrow>
                    if event_type msg = Some ''book'' then
                      (let book' = applySnapshot (or_empty (msg_asks msg)) (or_empty (msg_bids msg)) book
                       in updateBestPrices tokenId book' (w\<lparr>books := (books w)(tokenId \<mapsto> book')\<rparr>))
                    else if event_type msg = Some ''price_change'' then
                      (let book' = applyChanges (or_empty (msg_changes msg)) book
                       in updateBestPrices tokenId book' (w\<lparr>books := (books w)(tokenId \<mapsto> book')\<rparr>))
                    else (w, [])))"

fun handleMessages ::
  "message list \<Rightarrow> OrderbookWatcher \<Rightarrow> OrderbookWatcher \<times> string list" where
  "handleMessages [] w = (w, [])"
| "handleMessages (msg # msgs) w =
     (let r1 = handleMessage msg w; r2 = handleMessages msgs (fst r1)
      in (fst r2, snd r1 @ snd r2))"

text \<open>
  The \<^verbatim>\<open>open\<close> handler that \<^verbatim>\<open>connectOnce\<close> installs. It runs when the socket, already
  stored in \<^verbatim>\<open>this.ws\<close>, has become \<^verbatim>\<open>OPEN\<close>.
\<close>

definition on_open :: "OrderbookWatcher \<Rightarrow> OrderbookWatcher \<times> frame list" where
  "on_open w =
     (let w1 = w\<lparr>reconnectDelay := 1000\<rparr>;
          allTokens = subscribedTokens w1
      in (w1, if length allTokens > 0 then sendSubscription allTokens w1 else []))"

text \<open>
  One connection attempt, as the environment decides it: whether the socket opens before it
  closes or fails, and whether \<^verbatim>\<open>stop()\<close> is called while the attempt lasts.
\<close>

record attempt =
  opens :: bool
  stops :: bool

definition connectOnce :: "attempt \<Rightarrow> OrderbookWatcher \<Rightarrow> OrderbookWatcher \<times> frame list" where
  "connectOnce att w =
     (let w1 = w\<lparr>ws := Some CONNECTING\<rparr>;
          r = (if opens att then on_open (w1\<lparr>ws := Some OPEN\<rparr>) else (w1, []));
          w2 = fst r;
          w3 = (if stops att then w2\<lparr>shouldRun := False\<rparr> else w2)
      in (w3\<lparr>ws := Some CLOSED\<rparr>, snd r))"

text \<open>
  The loop of \<^verbatim>\<open>connect\<close> runs as long as \<^verbatim>\<open>shouldRun\<close> holds; here it is driven by the
  list of attempts that the environment grants and returns the watcher, the delays it slept
  (in milliseconds) and the frames it sent.
\<close>

fun connect ::
  "attempt list \<Rightarrow> OrderbookWatcher \<Rightarrow> OrderbookWatcher \<times> nat list \<times> frame list" where
  "connect [] w = (w, [], [])"
| "connect (att # atts) w =
     (if \<not> shouldRun w then (w, [], [])
      else (let r = connectOnce att w; w1 = fst r
            in if \<not> shouldRun w1 then (w1, [], snd r)
               else (let delay = reconnectDelay w1;
                         w2 = w1\<lparr>reconnectDelay := min (reconnectDelay w1 * 2) 30000\<rparr>;
                         rest = connect atts w2
                     in (fst rest, delay # fst (snd rest), snd r @ snd (snd rest)))))"

section \<open>Spread detector (\<^verbatim>\<open>src/unnamed/part_001\<close>, class \<^verbatim>\<open>ArbDetector\<close>)\<close>

record config =
  MIN_COMBINED_THRESHOLD :: real
  MIN_ARB_TICKS :: int

definition default_config :: config where
  "default_config = \<lparr>MIN_COMBINED_THRESHOLD = 1, MIN_ARB_TICKS = 2\<rparr>"

text \<open>
  Timestamps are milliseconds since the epoch, as \<^verbatim>\<open>Date.now()\<close> returns them; the ISO
  strings of \<^verbatim>\<open>ArbEvent.timestamp\<close>, \<^verbatim>\<open>windowStart\<close> and \<^verbatim>\<open>windowEnd\<close> are kept as the
  timestamps they print.
\<close>

record ArbEvent =
  e_timestamp :: int
  e_marketId :: string
  e_question :: string
  e_timeframe :: string
  e_yesAsk :: real
  e_noAsk :: real
  e_combined :: real
  e_spread :: real
  e_isArb :: bool

text \<open>
  \<^verbatim>\<open>peakSpread\<close> is \<^verbatim>\<open>Math.max(...w.spreads)\<close> and \<^verbatim>\<open>avgSpread\<close> a sum divided by the
  length: on an empty \<^verbatim>\<open>spreads\<close> they are \<^verbatim>\<open>-Infinity\<close> and \<^verbatim>\<open>NaN\<close>, here \<^const>\<open>None\<close>.
\<close>

record ArbWindow =
  w_windowStart :: int
  w_windowEnd :: int
  w_durationMs :: int
  w_marketId :: string
  w_question :: string
  w_timeframe :: string
  w_tickCount :: nat
  w_peakSpread :: "real option"
  w_avgSpread :: "real option"
  w_openCombined :: real
  w_closeCombined :: real

record WindowState =
  startTs :: int
  lastArbTickTs :: int
  openCombined :: real
  spreads :: "real list"

record MarketStats =
  s_marketId :: string
  s_question :: string
  s_timeframe :: string
  s_startAt :: string
  s_tickCount :: nat
  s_windowCount :: nat
  s_bestSpread :: real
  s_sumArbSpread :: real
  s_arbTickCount :: nat
  s_avgWindowDurationMs :: real
  s_longestWindowMs :: int
  s_sumWindowDurationMs :: int
  s_lastArbAt :: "int option"
  s_currentCombined :: "real option"

record ArbDetector =
  markets :: "string \<rightharpoonup> Market"
  tokenToMarket :: "string \<rightharpoonup> string"
  stats :: "string \<rightharpoonup> MarketStats"
  windows :: "string \<rightharpoonup> WindowState"

text \<open>
  The two callbacks are effects: every operation returns the calls it made, in order.
  Reading a field of \<^verbatim>\<open>undefined\<close> (the \<^verbatim>\<open>!\<close> assertions on \<^verbatim>\<open>this.stats.get\<close>) throws.
\<close>

datatype emit = Event ArbEvent | Window ArbWindow

datatype error = TypeError

definition new_ArbDetector :: ArbDetector where
  "new_ArbDetector =
     \<lparr>markets = Map.empty, tokenToMarket = Map.empty, stats = Map.empty, windows = Map.empty\<rparr>"

definition add_market :: "Market \<Rightarrow> ArbDetector \<Rightarrow> ArbDetector" where
  "add_market m d =
     (if markets d (marketId m) \<noteq> None then d
      else d\<lparr>markets := (markets d)(marketId m \<mapsto> m),
             tokenToMarket :=
               (tokenToMarket d)(yesTokenId m \<mapsto> marketId m, noTokenId m \<mapsto> marketId m),
             stats := (stats d)(marketId m \<mapsto>
               \<lparr>s_marketId = marketId m, s_question = question m, s_timeframe = timeframe m,
                s_startAt = startAt m, s_tickCount = 0, s_windowCount = 0, s_bestSpread = 0,
                s_sumArbSpread = 0, s_arbTickCount = 0, s_avgWindowDurationMs = 0,
                s_longestWindowMs = 0, s_sumWindowDurationMs = 0, s_lastArbAt = None,
                s_currentCombined = None\<rparr>)\<rparr>)"

definition detector_addMarkets :: "Market list \<Rightarrow> ArbDetector \<Rightarrow> ArbDetector" where
  "detector_addMarkets ms d = fold add_market ms d"

fun Math_max :: "real list \<Rightarrow> real option" where
  "Math_max [] = None"
| "Math_max (x # xs) = Some (fold max xs x)"

definition average :: "real list \<Rightarrow> real option" where
  "average xs =
     (if xs = [] then None else Some (fold (\<lambda>b a. a + b) xs 0 / real (length xs)))"

definition closeWindow ::
  "config \<Rightarrow> string \<Rightarrow> Market \<Rightarrow> real \<Rightarrow> ArbDetector \<Rightarrow> error + ArbDetector \<times> emit list" where
  "closeWindow cfg mid market closeCombined d =
     (case windows d mid of
        None \<Rightarrow> Inr (d, [])
      | Some w \<Rightarrow>
          (let d1 = d\<lparr>windows := (windows d)(mid := None)\<rparr>
           in if int (length (spreads w)) < MIN_ARB_TICKS cfg then Inr (d1, [])
              else (let durationMs = lastArbTickTs w - startTs w;
                        peakSpread = Math_max (spreads w);
                        avgSpread = average (spreads w)
                    in case stats d1 mid of
                         None \<Rightarrow> Inl TypeError
                       | Some s \<Rightarrow>
                           (let s1 = s\<lparr>s_windowCount := s_windowCount s + 1\<rparr>;
                                s2 = s1\<lparr>s_sumWindowDurationMs := s_sumWindowDurationMs s1 + durationMs\<rparr>;
                                s3 = s2\<lparr>s_avgWindowDurationMs :=
                                        real_of_int (s_sumWindowDurationMs s2) / real (s_windowCount s2)\<rparr>;
                                s4 = (if durationMs > s_longestWindowMs s3
                                      then s3\<lparr>s_longestWindowMs := durationMs\<rparr> else s3);
                                s5 = (case peakSpread of
                                        None \<Rightarrow> s4
                                      | Some p \<Rightarrow> if p > s_bestSpread s4
                                                  then s4\<lparr>s_bestSpread := p\<rparr> else s4);
                                arbWindow =
                                  \<lparr>w_windowStart = startTs w, w_windowEnd = lastArbTickTs w,
                                   w_durationMs = durationMs, w_marketId = mid,
                                   w_question = question market, w_timeframe = timeframe market,
                                   w_tickCount = length (spreads w), w_peakSpread = peakSpread,
                                   w_avgSpread = avgSpread, w_openCombined = openCombined w,
                                   w_closeCombined = closeCombined\<rparr>
                            in Inr (d1\<lparr>stats := (stats d1)(mid \<mapsto> s5)\<rparr>, [Window arbWindow])))))"

text \<open>
  \<^verbatim>\<open>check\<close> reads the clock twice: \<^verbatim>\<open>now\<close> is \<^verbatim>\<open>Date.now()\<close>, \<^verbatim>\<open>ts\<close> the later
  \<^verbatim>\<open>new Date()\<close> of the event. \<^verbatim>\<open>if (!marketId) return\<close> also returns on the empty string.
\<close>

definition arb_tick :: "int \<Rightarrow> real \<Rightarrow> MarketStats \<Rightarrow> MarketStats" where
  "arb_tick now spread s =
     (let s1 = s\<lparr>s_lastArbAt := Some now\<rparr>;
          s2 = s1\<lparr>s_sumArbSpread := s_sumArbSpread s1 + spread\<rparr>;
          s3 = s2\<lparr>s_arbTickCount := s_arbTickCount s2 + 1\<rparr>
      in if spread > s_bestSpread s3 then s3\<lparr>s_bestSpread := spread\<rparr> else s3)"

definition check ::
  "config \<Rightarrow> OrderbookWatcher \<Rightarrow> int \<Rightarrow> int \<Rightarrow> string \<Rightarrow> ArbDetector
     \<Rightarrow> error + ArbDetector \<times> emit list" where
  "check cfg watcher now ts tokenId d =
     (case tokenToMarket d tokenId of
        None \<Rightarrow> Inr (d, [])
      | Some mid \<Rightarrow>
          if mid = [] then Inr (d, [])
          else (case markets d mid of
             None \<Rightarrow> Inr (d, [])
           | Some market \<Rightarrow>
              (case watcher_getBestAsk watcher (yesTokenId market) of
                 None \<Rightarrow> Inr (d, [])
               | Some yesAsk \<Rightarrow>
                  (case watcher_getBestAsk watcher (noTokenId market) of
                     None \<Rightarrow> Inr (d, [])
                   | Some noAsk \<Rightarrow>
                      (let combined = yesAsk + noAsk;
                           spread = 1 - combined;
                           isArb = (combined < MIN_COMBINED_THRESHOLD cfg);
                           inWindow = (windows d mid \<noteq> None);
                           event = \<lparr>e_timestamp = ts, e_marketId = mid,
                                    e_question = question market, e_timeframe = timeframe market,
                                    e_yesAsk = yesAsk, e_noAsk = noAsk, e_combined = combined,
                                    e_spread = spread, e_isArb = isArb\<rparr>
                       in case stats d mid of
                            None \<Rightarrow> Inl TypeError
                          | Some s0 \<Rightarrow>
                             (let s = s0\<lparr>s_tickCount := s_tickCount s0 + 1,
                                         s_currentCombined := Some combined\<rparr>;
                                  d1 = d\<lparr>stats := (stats d)(mid \<mapsto> s)\<rparr>
                              in if isArb \<and> \<not> inWindow then
                                   Inr (d1\<lparr>windows := (windows d1)(mid \<mapsto>
                                             \<lparr>startTs = now, lastArbTickTs = now,
                                              openCombined = combined, spreads = [spread]\<rparr>),
                                           stats := (stats d1)(mid \<mapsto> arb_tick now spread s)\<rparr>,
                                        [Event event])
                                 else if isArb \<and> inWindow then
                                   (case windows d1 mid of
                                      None \<Rightarrow> Inl TypeError
                                    | Some w \<Rightarrow>
                                        Inr (d1\<lparr>windows := (windows d1)(mid \<mapsto>
                                                  w\<lparr>spreads := spreads w @ [spread],
                                                    lastArbTickTs := now\<rparr>),
                                                stats := (stats d1)(mid \<mapsto> arb_tick now spread s)\<rparr>,
                                             [Event event]))
                                 else if \<not> isArb \<and> inWindow then
                                   (case closeWindow cfg mid market combined d1 of
                                      Inl e \<Rightarrow> Inl e
                                    | Inr r \<Rightarrow> Inr (fst r, snd r @ [Event event]))
                                 else Inr (d1, [Event event])))))))"

text \<open>A tick is one call of \<^verbatim>\<open>check\<close>: the watcher as it stands, the two clock readings, the token.\<close>

record tick =
  t_watcher :: OrderbookWatcher
  t_now :: int
  t_ts :: int
  t_tokenId :: string

fun checks :: "config \<Rightarrow> tick list \<Rightarrow> ArbDetector \<Rightarrow> error + ArbDetector \<times> emit list" where
  "checks cfg [] d = Inr (d, [])"
| "checks cfg (t # ticks) d =
     (case check cfg (t_watcher t) (t_now t) (t_ts t) (t_tokenId t) d of
        Inl e \<Rightarrow> Inl e
      | Inr r1 \<Rightarrow>
          (case checks cfg ticks (fst r1) of
             Inl e \<Rightarrow> Inl e
           | Inr r2 \<Rightarrow> Inr (fst r2, snd r1 @ snd r2)))"

definition remove_market ::
  "config \<Rightarrow> Market \<Rightarrow> ArbDetector \<Rightarrow> error + ArbDetector \<times> emit list" where
  "remove_market cfg m d =
     (case (if windows d (marketId m) \<noteq> None
            then closeWindow cfg (marketId m) m
                   (case stats d (marketId m) of
                      None \<Rightarrow> 1
                    | Some s \<Rightarrow> (case s_currentCombined s of None \<Rightarrow> 1 | Some c \<Rightarrow> c)) d
            else Inr (d, [])) of
        Inl e \<Rightarrow> Inl e
      | Inr r \<Rightarrow>
          Inr ((fst r)\<lparr>markets := (markets (fst r))(marketId m := None),
                       stats := (stats (fst r))(marketId m := None),
                       tokenToMarket :=
                         (tokenToMarket (fst r))(yesTokenId m := None, noTokenId m := None)\<rparr>,
               snd r))"

fun detector_removeMarkets ::
  "config \<Rightarrow> Market list \<Rightarrow> ArbDetector \<Rightarrow> error + ArbDetector \<times> emit list" where
  "detector_removeMarkets cfg [] d = Inr (d, [])"
| "detector_removeMarkets cfg (m # ms) d =
     (case remove_market cfg m d of
        Inl e \<Rightarrow> Inl e
      | Inr r1 \<Rightarrow>
          (case detector_removeMarkets cfg ms (fst r1) of
             Inl e \<Rightarrow> Inl e
           | Inr r2 \<Rightarrow> Inr (fst r2, snd r1 @ snd r2)))"

section \<open>What the results are stated with\<close>

text \<open>
  The body of the two loops of \<^verbatim>\<open>applySnapshot\<close> on one side of the book, and the invariant
  of the data model: every stored size is above zero.
\<close>

definition put_level :: "level \<Rightarrow> (real \<times> real) list \<Rightarrow> (real \<times> real) list" where
  "put_level l al = (if snd l > 0 then AList.update (fst l) (snd l) al else al)"

definition sizes_positive :: "OrderBook \<Rightarrow> bool" where
  "sizes_positive book \<longleftrightarrow>
     list_all (\<lambda>l. snd l > 0) (asks book) \<and> list_all (\<lambda>l. snd l > 0) (bids book)"

text \<open>
  Whether the cached side of a token's book is empty after each message of a sequence.
\<close>

fun ask_side_stays_empty :: "string \<Rightarrow> message list \<Rightarrow> OrderbookWatcher \<Rightarrow> bool" where
  "ask_side_stays_empty tokenId [] w = True"
| "ask_side_stays_empty tokenId (msg # msgs) w =
     (let w' = fst (handleMessage msg w)
      in (case books w' tokenId of None \<Rightarrow> True | Some book \<Rightarrow> book_getBestAsk book = None)
         \<and> ask_side_stays_empty tokenId msgs w')"

fun bid_side_stays_empty :: "string \<Rightarrow> message list \<Rightarrow> OrderbookWatcher \<Rightarrow> bool" where
  "bid_side_stays_empty tokenId [] w = True"
| "bid_side_stays_empty tokenId (msg # msgs) w =
     (let w' = fst (handleMessage msg w)
      in (case books w' tokenId of None \<Rightarrow> True | Some book \<Rightarrow> book_getBestBid book = None)
         \<and> bid_side_stays_empty tokenId msgs w')"

text \<open>
  The number of arbitrage ticks that the active window of a market has accumulated, none
  when there is no window; the market a callback call is about; the value that
  \<^verbatim>\<open>removeMarkets\<close> passes as closing combined,
  \<^verbatim>\<open>this.stats.get(m.marketId)?.currentCombined ?? 1.0\<close>.
\<close>

definition window_len :: "ArbDetector \<Rightarrow> string \<Rightarrow> nat" where
  "window_len d mid = (case windows d mid of None \<Rightarrow> 0 | Some w \<Rightarrow> length (spreads w))"

fun emit_marketId :: "emit \<Rightarrow> string" where
  "emit_marketId (Event e) = e_marketId e"
| "emit_marketId (Window aw) = w_marketId aw"

fun is_Window :: "emit \<Rightarrow> bool" where
  "is_Window (Window aw) = True"
| "is_Window (Event e) = False"

definition last_combined :: "ArbDetector \<Rightarrow> string \<Rightarrow> real" where
  "last_combined d mid =
     (case stats d mid of
        None \<Rightarrow> 1
      | Some s \<Rightarrow> (case s_currentCombined s of None \<Rightarrow> 1 | Some c \<Rightarrow> c))"

text \<open>
  Reading the callback calls of a run in order: \<open>run\<close> counts the arbitrage events of market
  \<open>mid\<close> since its last non-arbitrage event, and every window surfaced for \<open>mid\<close> must have
  exactly that many ticks and at least \<open>k\<close> of them.
\<close>

fun surfaced_after_run :: "int \<Rightarrow> string \<Rightarrow> nat \<Rightarrow> emit list \<Rightarrow> bool" where
  "surfaced_after_run k mid run [] = True"
| "surfaced_after_run k mid run (Event e # out) =
     surfaced_after_run k mid
       (if e_marketId e = mid then (if e_isArb e then Suc run else 0) else run) out"
| "surfaced_after_run k mid run (Window aw # out) =
     ((if w_marketId aw = mid then w_tickCount aw = run \<and> k \<le> int run else True)
      \<and> surfaced_after_run k mid run out)"

text \<open>
  Every market and every active window has statistics. It holds for a new detector and
  \<^verbatim>\<open>addMarkets\<close>, \<^verbatim>\<open>check\<close> and \<^verbatim>\<open>removeMarkets\<close> keep it.
\<close>

definition detector_wf :: "ArbDetector \<Rightarrow> bool" where
  "detector_wf d \<longleftrightarrow> dom (markets d) \<subseteq> dom (stats d) \<and> dom (windows d) \<subseteq> dom (stats d)"

section \<open>Scenarios\<close>

text \<open>
  A connection attempt that fails before it opens, and one that opens; a watcher with 501
  subscribed tokens.
\<close>

definition failed :: attempt where "failed = \<lparr>opens = False, stops = False\<rparr>"

definition opened :: attempt where "opened = \<lparr>opens = True, stops = False\<rparr>"

definition many_tokens :: "nat \<Rightarrow> string list" where
  "many_tokens n = map (\<lambda>i. replicate (Suc i) CHR ''t'') [0..<n]"

definition watcher_501 :: OrderbookWatcher where
  "watcher_501 =
     new_OrderbookWatcher
       \<lparr>subscribedTokens := many_tokens 501,
        books := (\<lambda>tokenId. if tokenId \<in> set (many_tokens 501) then Some new_OrderBook else None)\<rparr>"

text \<open>
  One market with tokens \<open>Y\<close> and \<open>N\<close>, the detector and the watcher that hold it, and the
  watcher after a book snapshot for each token that quotes the given best asks.
\<close>

definition market_A :: Market where
  "market_A = \<lparr>marketId = ''A'', question = ''Bitcoin Up or Down'', timeframe = ''5-min'',
     startAt = ''s'', expiresAt = ''e'', yesTokenId = ''Y'', noTokenId = ''N''\<rparr>"

definition detector_A :: ArbDetector where
  "detector_A = detector_addMarkets [market_A] new_ArbDetector"

definition book_msg :: "string \<Rightarrow> level list \<Rightarrow> level list \<Rightarrow> message" where
  "book_msg tokenId as bs =
     \<lparr>asset_id = Some tokenId, event_type = Some ''book'', msg_asks = Some as,
      msg_bids = Some bs, msg_changes = None\<rparr>"

definition change_msg :: "string \<Rightarrow> change list \<Rightarrow> message" where
  "change_msg tokenId cs =
     \<lparr>asset_id = Some tokenId, event_type = Some ''price_change'', msg_asks = None,
      msg_bids = None, msg_changes = Some cs\<rparr>"

definition quotes :: "real \<Rightarrow> real \<Rightarrow> OrderbookWatcher" where
  "quotes yes_ask no_ask =
     fst (handleMessages [book_msg ''Y'' [(yes_ask, 10)] [], book_msg ''N'' [(no_ask, 10)] []]
            (fst (watcher_addMarkets [market_A] new_OrderbookWatcher)))"

text \<open>
  A quoted token whose book is then emptied, first level by level, then by an empty snapshot.
\<close>

definition quoted_both :: OrderbookWatcher where
  "quoted_both =
     fst (handleMessages [book_msg ''Y'' [(0.48, 10)] [(0.47, 5)]]
            (fst (watcher_addMarkets [market_A] new_OrderbookWatcher)))"

definition emptying_msgs :: "message list" where
  "emptying_msgs = [change_msg ''Y'' [(0.48, ''SELL'', 0), (0.47, ''BUY'', 0)], book_msg ''Y'' [] []]"

text \<open>
  Ticks of the market at the given best asks. \<open>glitch_then_window\<close> is one arbitrage tick,
  a non-arbitrage tick, two arbitrage ticks and a closing tick; \<open>detector_open\<close> is the
  detector after three arbitrage ticks, with the window \<open>window_open\<close> still active.
\<close>

definition tick_A :: "real \<Rightarrow> real \<Rightarrow> int \<Rightarrow> tick" where
  "tick_A yes_ask no_ask now =
     \<lparr>t_watcher = quotes yes_ask no_ask, t_now = now, t_ts = now, t_tokenId = ''Y''\<rparr>"

definition glitch_then_window :: "tick list" where
  "glitch_then_window =
     [tick_A 0.48 0.49 1, tick_A 0.52 0.49 2,
      tick_A 0.46 0.49 3, tick_A 0.47 0.49 4, tick_A 0.48 0.53 5]"

definition three_arb_ticks :: "tick list" where
  "three_arb_ticks = [tick_A 0.46 0.49 1, tick_A 0.46 0.49 2, tick_A 0.47 0.49 3]"

definition detector_open :: ArbDetector where
  "detector_open =
     (case checks default_config three_arb_ticks detector_A of
        Inl e \<Rightarrow> detector_A | Inr r \<Rightarrow> fst r)"

definition window_open :: WindowState where
  "window_open = \<lparr>startTs = 1, lastArbTickTs = 3, openCombined = 0.95,
                    spreads = [0.05, 0.05, 0.04]\<rparr>"

section \<open>Order book: results\<close>

lemma fold_ask_step_Some:
  "fold ask_step ps (Some b) = Some (fold min ps b)"
  by (induction ps arbitrary: b) (auto simp: ask_step_def min_def)

lemma fold_bid_step_Some:
  "fold bid_step ps (Some b) = Some (fold max ps b)"
  by (induction ps arbitrary: b) (auto simp: bid_step_def max_def)

lemma fold_min_Min: "fold min ps (b::real) = Min (insert b (set ps))"
proof (induction ps arbitrary: b)
  case Nil
  show ?case by simp
next
  case (Cons p ps)
  have "Min (insert (min p b) (set ps)) = Min (insert b (insert p (set ps)))"
    by (cases "set ps = {}") (auto simp: min.commute min.left_commute)
  with Cons show ?case by simp
qed

lemma fold_max_Max: "fold max ps (b::real) = Max (insert b (set ps))"
proof (induction ps arbitrary: b)
  case Nil
  show ?case by simp
next
  case (Cons p ps)
  have "Max (insert (max p b) (set ps)) = Max (insert b (insert p (set ps)))"
    by (cases "set ps = {}") (auto simp: max.commute max.left_commute)
  with Cons show ?case by simp
qed

lemma book_getBestAsk_Min:
  "book_getBestAsk book =
     (if asks book = [] then None else Some (Min (fst ` set (asks book))))"
proof (cases "asks book")
  case Nil
  then show ?thesis by (simp add: book_getBestAsk_def)
next
  case (Cons a as)
  then show ?thesis
    by (simp add: book_getBestAsk_def ask_step_def fold_ask_step_Some fold_min_Min)
qed

lemma book_getBestBid_Max:
  "book_getBestBid book =
     (if bids book = [] then None else Some (Max (fst ` set (bids book))))"
proof (cases "bids book")
  case Nil
  then show ?thesis by (simp add: book_getBestBid_def)
next
  case (Cons a as)
  then show ?thesis
    by (simp add: book_getBestBid_def bid_step_def fold_bid_step_Some fold_max_Max)
qed

lemma uncrossed_iff:
  "uncrossed book \<longleftrightarrow> (\<forall>a \<in> fst ` set (asks book). \<forall>q \<in> fst ` set (bids book). q \<le> a)"
  by (auto simp: uncrossed_def list_all_iff)

lemma keys_applyChange_asks:
  "fst ` set (asks (applyChange price side sz book))
     \<subseteq> (if side = ''SELL'' \<and> sz \<noteq> 0 then insert price (fst ` set (asks book))
         else fst ` set (asks book))"
  using AList.dom_delete_subset [of price "asks book"]
  by (simp add: applyChange_def AList.dom_update)

lemma keys_applyChange_bids:
  "fst ` set (bids (applyChange price side sz book))
     \<subseteq> (if side = ''BUY'' \<and> sz \<noteq> 0 then insert price (fst ` set (bids book))
         else fst ` set (bids book))"
  using AList.dom_delete_subset [of price "bids book"]
  by (simp add: applyChange_def AList.dom_update)

lemma uncrossed_applyChange:
  assumes "uncrossed book" and "changes_uncrossed [(price, side, sz)] book"
  shows "uncrossed (applyChange price side sz book)"
proof -
  let ?A = "fst ` set (asks book)" and ?B = "fst ` set (bids book)"
  let ?A' = "fst ` set (asks (applyChange price side sz book))"
  let ?B' = "fst ` set (bids (applyChange price side sz book))"
  have u: "\<forall>a \<in> ?A. \<forall>q \<in> ?B. q \<le> a"
    using assms(1) unfolding uncrossed_iff .
  have sell: "side = ''SELL'' \<Longrightarrow> sz \<noteq> 0 \<Longrightarrow> \<forall>q \<in> ?B. q \<le> price"
    using assms(2) by (simp add: list_all_iff)
  have buy: "side = ''BUY'' \<Longrightarrow> sz \<noteq> 0 \<Longrightarrow> \<forall>a \<in> ?A. price \<le> a"
    using assms(2) by (simp add: list_all_iff)
  have "\<forall>a \<in> ?A'. \<forall>q \<in> ?B'. q \<le> a"
  proof (intro ballI)
    fix a q assume a: "a \<in> ?A'" and q: "q \<in> ?B'"
    consider (s) "side = ''SELL''" "sz \<noteq> 0" | (b) "side = ''BUY''" "sz \<noteq> 0"
      | (n) "\<not> (side = ''SELL'' \<and> sz \<noteq> 0)" "\<not> (side = ''BUY'' \<and> sz \<noteq> 0)"
      by blast
    then show "q \<le> a"
    proof cases
      case s
      then have "a \<in> insert price ?A" "q \<in> ?B"
        using a q keys_applyChange_asks [of price side sz book]
          keys_applyChange_bids [of price side sz book] by auto
      then show ?thesis using u sell [OF s] by blast
    next
      case b
      then have "a \<in> ?A" "q \<in> insert price ?B"
        using a q keys_applyChange_asks [of price side sz book]
          keys_applyChange_bids [of price side sz book] by auto
      then show ?thesis using u buy [OF b] by blast
    next
      case n
      then have "a \<in> ?A" "q \<in> ?B"
        using a q keys_applyChange_asks [of price side sz book]
          keys_applyChange_bids [of price side sz book] by (auto split: if_splits)
      then show ?thesis using u by blast
    qed
  qed
  then show ?thesis unfolding uncrossed_iff .
qed

lemma uncrossed_applyChanges:
  "uncrossed book \<Longrightarrow> changes_uncrossed cs book \<Longrightarrow> uncrossed (applyChanges cs book)"
proof (induction cs arbitrary: book)
  case Nil
  then show ?case by simp
next
  case (Cons c cs)
  obtain price side sz where c: "c = (price, side, sz)" by (cases c)
  from Cons.prems have "changes_uncrossed [(price, side, sz)] book"
    and rest: "changes_uncrossed cs (applyChange price side sz book)"
    by (simp_all add: c)
  with Cons.prems(1) have "uncrossed (applyChange price side sz book)"
    by (simp add: uncrossed_applyChange)
  with rest show ?case by (simp add: c Cons.IH)
qed

text \<open>
  C4, as stated: after any sequence of \<^verbatim>\<open>applyChange\<close> operations the best ask is at or
  above the best bid. It fails: \<^verbatim>\<open>applyChange\<close> writes each side on its own and never
  compares the two. Selling at 0.4 and then bidding at 0.6 on the empty book leaves best
  ask 0.4 under best bid 0.6.
\<close>

theorem C4_crossed_book_counterexample:
  "book_getBestAsk (applyChanges [(0.4, ''SELL'', 1), (0.6, ''BUY'', 1)] new_OrderBook) = Some 0.4
   \<and> book_getBestBid (applyChanges [(0.4, ''SELL'', 1), (0.6, ''BUY'', 1)] new_OrderBook) = Some 0.6
   \<and> \<not> (0.4 :: real) \<ge> 0.6"
  by (simp add: new_OrderBook_def applyChange_def book_getBestAsk_def book_getBestBid_def
        ask_step_def bid_step_def)

text \<open>
  C4, amended: starting from a book whose asks are all at or above its bids, and applying
  changes none of which crosses the book as it stands at that moment, the best ask is at
  or above the best bid whenever both exist. \<^verbatim>\<open>applyChange\<close> itself neither rejects nor
  repairs a crossing change.
\<close>

theorem C4_uncrossed_changes_keep_ask_above_bid:
  assumes "uncrossed book" and "changes_uncrossed cs book"
    and "book_getBestAsk (applyChanges cs book) = Some a"
    and "book_getBestBid (applyChanges cs book) = Some q"
  shows "q \<le> a"
proof -
  let ?b = "applyChanges cs book"
  have u: "uncrossed ?b" using assms(1,2) by (rule uncrossed_applyChanges)
  from assms(3) have a: "asks ?b \<noteq> []" "a = Min (fst ` set (asks ?b))"
    by (auto simp: book_getBestAsk_Min split: if_splits)
  from assms(4) have q: "bids ?b \<noteq> []" "q = Max (fst ` set (bids ?b))"
    by (auto simp: book_getBestBid_Max split: if_splits)
  have "a \<in> fst ` set (asks ?b)" unfolding a(2) using a(1) by (intro Min_in) auto
  moreover have "q \<in> fst ` set (bids ?b)" unfolding q(2) using q(1) by (intro Max_in) auto
  ultimately show ?thesis using u unfolding uncrossed_iff by blast
qed

text \<open>
  An instance of the amended C4: sell at 0.6, then bid at 0.4.
\<close>

theorem C4_uncrossed_changes_witness:
  "uncrossed new_OrderBook
   \<and> changes_uncrossed [(0.6, ''SELL'', 1), (0.4, ''BUY'', 1)] new_OrderBook
   \<and> book_getBestAsk (applyChanges [(0.6, ''SELL'', 1), (0.4, ''BUY'', 1)] new_OrderBook) = Some 0.6
   \<and> book_getBestBid (applyChanges [(0.6, ''SELL'', 1), (0.4, ''BUY'', 1)] new_OrderBook) = Some 0.4
   \<and> (0.4 :: real) \<le> 0.6"
proof -
  have h1: "uncrossed new_OrderBook"
    by (simp add: uncrossed_def new_OrderBook_def)
  have h2: "changes_uncrossed [(0.6, ''SELL'', 1), (0.4, ''BUY'', 1)] new_OrderBook"
    by (simp add: new_OrderBook_def applyChange_def)
  have h3: "book_getBestAsk (applyChanges [(0.6, ''SELL'', 1), (0.4, ''BUY'', 1)] new_OrderBook)
      = Some 0.6"
    by (simp add: new_OrderBook_def applyChange_def book_getBestAsk_def ask_step_def)
  have h4: "book_getBestBid (applyChanges [(0.6, ''SELL'', 1), (0.4, ''BUY'', 1)] new_OrderBook)
      = Some 0.4"
    by (simp add: new_OrderBook_def applyChange_def book_getBestBid_def bid_step_def)
  from C4_uncrossed_changes_keep_ask_above_bid [OF h1 h2 h3 h4] h1 h2 h3 h4
  show ?thesis by simp
qed

lemma fold_set_ask:
  "fold set_ask as book = book\<lparr>asks := fold put_level as (asks book)\<rparr>"
  by (induction as arbitrary: book) (simp_all add: set_ask_def put_level_def)

lemma fold_set_bid:
  "fold set_bid bs book = book\<lparr>bids := fold put_level bs (bids book)\<rparr>"
  by (induction bs arbitrary: book) (simp_all add: set_bid_def put_level_def)

lemma applySnapshot_eq:
  "applySnapshot as bs book = book\<lparr>asks := fold put_level as [], bids := fold put_level bs []\<rparr>"
  by (simp add: applySnapshot_def fold_set_ask fold_set_bid)

lemma applySnapshot_any_book:
  "applySnapshot as bs book = applySnapshot as bs (book' :: OrderBook)"
  by (simp add: applySnapshot_eq)

text \<open>
  C6: a snapshot clears both sides before it fills them, so the book after
  \<^verbatim>\<open>applySnapshot(b)\<close>, any changes, and \<^verbatim>\<open>applySnapshot(b')\<close> is the book that
  \<^verbatim>\<open>applySnapshot(b')\<close> builds on a new, empty book, whatever the book held before.
\<close>

theorem C6_snapshot_resets_book:
  "applySnapshot as' bs' (applyChanges cs (applySnapshot as bs book))
     = applySnapshot as' bs' new_OrderBook"
  by (rule applySnapshot_any_book)

lemma set_update_subset:
  "set (AList.update k v al) \<subseteq> insert (k, v) (set al)"
  by (induction al) auto

lemma set_delete_subset: "set (AList.delete k al) \<subseteq> set al"
  by (auto simp: AList.delete_eq)

lemma fold_put_level_positive:
  "list_all (\<lambda>l. snd l > 0) al \<Longrightarrow> list_all (\<lambda>l. snd l > 0) (fold put_level ls al)"
proof (induction ls arbitrary: al)
  case Nil
  then show ?case by simp
next
  case (Cons l ls)
  have "list_all (\<lambda>l. snd l > 0) (put_level l al)"
    using Cons.prems set_update_subset [of "fst l" "snd l" al]
    by (auto simp: put_level_def list_all_iff)
  then show ?case using Cons.IH by simp
qed

lemma sizes_positive_applySnapshot: "sizes_positive (applySnapshot as bs book)"
  by (simp add: sizes_positive_def applySnapshot_eq fold_put_level_positive)

lemma sizes_positive_applyChange:
  assumes "sizes_positive book" and "0 \<le> sz"
  shows "sizes_positive (applyChange price side sz book)"
  using assms set_update_subset [of price sz "asks book"] set_update_subset [of price sz "bids book"]
    set_delete_subset [of price "asks book"] set_delete_subset [of price "bids book"]
  by (auto simp: sizes_positive_def applyChange_def list_all_iff)

text \<open>
  C5 says that every entry stored by \<^verbatim>\<open>applySnapshot\<close> and \<^verbatim>\<open>applyChange\<close> has a size above
  zero. \<^verbatim>\<open>applySnapshot\<close> keeps a level only when \<^verbatim>\<open>size > 0\<close>, and \<^verbatim>\<open>applyChange\<close> keeps
  the invariant for sizes that are not negative (the two lemmas above), but it deletes on
  \<^verbatim>\<open>size === 0\<close> and stores every other size: a \<^verbatim>\<open>SELL\<close> change of size -1 on a new book
  leaves an ask entry of size -1.
\<close>

theorem C5_negative_size_is_stored:
  "asks (apply_ops [Change 0.5 ''SELL'' (-1)] new_OrderBook) = [(0.5, -1)]
   \<and> \<not> (-1 :: real) > 0"
  by (simp add: apply_ops_def applyChange_def new_OrderBook_def)

section \<open>Feed connector: results\<close>

lemma many_tokens_distinct: "distinct (many_tokens n)"
proof -
  have "inj_on (\<lambda>i. replicate (Suc i) CHR ''t'') (set [0..<n])"
    by (rule inj_onI) (auto dest: arg_cong [where f = length])
  then show ?thesis by (simp add: many_tokens_def distinct_map)
qed

lemma connectOnce_failed:
  "connectOnce failed w = (w\<lparr>ws := Some CLOSED\<rparr>, [])"
  by (simp add: connectOnce_def failed_def)

lemma backoff_arith:
  "min (min (d * 2) 30000 * 2 ^ i) 30000 = min (d * 2 ^ Suc i) (30000::nat)"
proof (cases "d * 2 \<le> 30000")
  case True
  then have "min (d * 2) 30000 = d * 2" by simp
  then show ?thesis by (simp add: mult.assoc)
next
  case False
  then have big: "(30000::nat) \<le> d * 2" by simp
  have one: "(1::nat) \<le> 2 ^ i" by simp
  have "(30000::nat) * 1 \<le> 30000 * 2 ^ i" using one by (rule mult_le_mono2)
  then have g: "(30000::nat) \<le> 30000 * 2 ^ i" by (simp only: mult_1_right)
  have "min (d * 2) 30000 = (30000::nat)" using big by (rule min_absorb2)
  then have l: "min (min (d * 2) 30000 * 2 ^ i) 30000 = (30000::nat)"
    using g by (simp only: min_absorb2)
  have "(d * 2) * 1 \<le> (d * 2) * 2 ^ i" using one by (rule mult_le_mono2)
  then have "d * 2 \<le> d * 2 ^ Suc i" by (simp only: mult_1_right power_Suc mult.assoc)
  with big have "(30000::nat) \<le> d * 2 ^ Suc i" by (rule le_trans)
  then have "min (d * 2 ^ Suc i) 30000 = (30000::nat)" by (rule min_absorb2)
  with l show ?thesis by (simp only:)
qed

lemma connect_failures:
  "shouldRun w \<Longrightarrow> reconnectDelay w \<le> 30000 \<Longrightarrow>
   fst (snd (connect (replicate n failed) w))
     = map (\<lambda>i. min (reconnectDelay w * 2 ^ i) 30000) [0..<n]"
proof (induction n arbitrary: w)
  case 0
  show ?case by simp
next
  case (Suc n)
  let ?w2 = "w\<lparr>ws := Some CLOSED, reconnectDelay := min (reconnectDelay w * 2) 30000\<rparr>"
  have ih: "fst (snd (connect (replicate n failed) ?w2))
     = map (\<lambda>i. min (min (reconnectDelay w * 2) 30000 * 2 ^ i) 30000) [0..<n]"
    using Suc.IH [of ?w2] Suc.prems by simp
  have m: "min (min (reconnectDelay w * 2) 30000 * 2 ^ i) 30000
      = min (reconnectDelay w * 2 ^ Suc i) (30000::nat)" for i
    by (rule backoff_arith)
  have "[0..<Suc n] = 0 # map Suc [0..<n]"
    by (simp add: upt_conv_Cons map_Suc_upt del: upt_Suc)
  then show ?case
    using Suc.prems ih
    by (simp add: connectOnce_failed Let_def m comp_def del: upt_Suc power_Suc)
qed

lemma connectOnce_opened:
  "reconnectDelay (fst (connectOnce opened w)) = 1000"
  "shouldRun (fst (connectOnce opened w)) = shouldRun w"
  by (simp_all add: connectOnce_def opened_def on_open_def Let_def)

text \<open>
  C8, as stated: the reconnect delay starts at 100 ms and is reset to 100 ms when a
  connection opens. It fails: \<^verbatim>\<open>reconnectDelay\<close> is initialised to \<^verbatim>\<open>1_000\<close> and the
  \<^verbatim>\<open>open\<close> handler sets it to \<^verbatim>\<open>1_000\<close>; two failures in a row from a new watcher sleep
  1000 ms and 2000 ms.
\<close>

theorem C8_first_delay_counterexample:
  "fst (snd (connect [failed, failed] new_OrderbookWatcher)) = [1000, 2000]
   \<and> reconnectDelay (fst (on_open new_OrderbookWatcher)) = 1000
   \<and> (1000 :: nat) \<noteq> 100"
  by (simp add: connectOnce_failed new_OrderbookWatcher_def on_open_def Let_def)

text \<open>
  C8, amended: the reconnect delay starts at 1000 ms, doubles after each failed attempt up
  to a cap of 30000 ms, and is reset to 1000 ms when a connection opens: a new watcher
  holds 1000, the \<^verbatim>\<open>open\<close> handler stores 1000, \<open>n\<close> failures in a row from a new watcher
  sleep \<open>min (1000 * 2 ^ i) 30000\<close> for \<open>i = 0, \<dots>, n - 1\<close>, and so do an attempt that opened
  and the failures after it, whatever the delay was before.
\<close>

theorem C8_backoff_from_one_second:
  "reconnectDelay new_OrderbookWatcher = 1000
   \<and> reconnectDelay (fst (on_open w)) = 1000
   \<and> fst (snd (connect (replicate n failed) new_OrderbookWatcher))
       = map (\<lambda>i. min (1000 * 2 ^ i) 30000) [0..<n]
   \<and> (shouldRun w \<longrightarrow>
        fst (snd (connect (opened # replicate n failed) w))
          = map (\<lambda>i. min (1000 * 2 ^ i) 30000) [0..<Suc n])"
proof (intro conjI impI)
  show "reconnectDelay new_OrderbookWatcher = 1000"
    by (simp add: new_OrderbookWatcher_def)
  show "reconnectDelay (fst (on_open w)) = 1000"
    by (simp add: on_open_def Let_def)
  show "fst (snd (connect (replicate n failed) new_OrderbookWatcher))
       = map (\<lambda>i. min (1000 * 2 ^ i) 30000) [0..<n]"
    using connect_failures [of new_OrderbookWatcher n]
    by (simp add: new_OrderbookWatcher_def)
next
  assume run: "shouldRun w"
  let ?w1 = "fst (connectOnce opened w)"
  let ?w2 = "?w1\<lparr>reconnectDelay := min (reconnectDelay ?w1 * 2) 30000\<rparr>"
  have w2: "shouldRun ?w2" "reconnectDelay ?w2 = 2000"
    using run by (simp_all add: connectOnce_opened)
  have "fst (snd (connect (replicate n failed) ?w2))
      = map (\<lambda>i. min (2000 * 2 ^ i) 30000) [0..<n]"
    using connect_failures [of ?w2 n] w2 by simp
  also have "\<dots> = map (\<lambda>i. min (1000 * 2 ^ Suc i) 30000) [0..<n]"
    by simp
  finally have rest: "fst (snd (connect (replicate n failed) ?w2))
      = map (\<lambda>i. min (1000 * 2 ^ Suc i) 30000) [0..<n]" .
  have upt: "[0..<Suc n] = 0 # map Suc [0..<n]"
    by (simp add: upt_conv_Cons map_Suc_upt del: upt_Suc)
  show "fst (snd (connect (opened # replicate n failed) w))
          = map (\<lambda>i. min (1000 * 2 ^ i) 30000) [0..<Suc n]"
    unfolding upt using run rest
    by (simp add: connectOnce_opened Let_def comp_def del: upt_Suc power_Suc)
qed

text \<open>
  An instance of the amended C8: an attempt that opens, then five failures.
\<close>

theorem C8_backoff_witness:
  "shouldRun new_OrderbookWatcher
   \<and> fst (snd (connect (opened # replicate 5 failed) new_OrderbookWatcher))
       = [1000, 2000, 4000, 8000, 16000, 30000]"
proof -
  have run: "shouldRun new_OrderbookWatcher" by (simp add: new_OrderbookWatcher_def)
  have up: "[0..<Suc 5] = [0, 1, 2, 3, 4, 5]" by (simp add: upt_rec)
  from C8_backoff_from_one_second [of new_OrderbookWatcher 5] run
  have "fst (snd (connect (opened # replicate 5 failed) new_OrderbookWatcher))
          = map (\<lambda>i. min (1000 * 2 ^ i) 30000) [0..<Suc 5]" by blast
  then show ?thesis using run unfolding up by simp
qed

text \<open>
  C9, as stated: on connect the token set is sent in frames of at most 500 identifiers each.
  It fails: the \<^verbatim>\<open>open\<close> handler passes the whole \<^verbatim>\<open>Array.from(this.subscribedTokens)\<close> to
  one \<^verbatim>\<open>sendSubscription\<close> call, which sends one frame. With 501 watched tokens that frame
  carries 501 identifiers.
\<close>

theorem C9_single_frame_counterexample:
  "map (\<lambda>f. length (assets_ids f)) (snd (connectOnce opened watcher_501)) = [501]
   \<and> \<not> (501 :: nat) \<le> 500"
  by (simp add: connectOnce_def opened_def on_open_def sendSubscription_def watcher_501_def
        many_tokens_def new_OrderbookWatcher_def Let_def)

text \<open>
  C9, amended: on connect, when the socket opens and at least one token is watched, the
  connector sends exactly one subscription frame, which carries the full token set in
  insertion order whatever its size; it sends no frame when no token is watched or the
  socket never opens.
\<close>

theorem C9_one_frame_with_all_tokens:
  "snd (connectOnce att w)
     = (if opens att \<and> subscribedTokens w \<noteq> []
        then [\<lparr>assets_ids = subscribedTokens w, frame_type = ''Book''\<rparr>] else [])"
  by (simp add: connectOnce_def on_open_def sendSubscription_def Let_def)

lemma updateBestPrices_books:
  "books (fst (updateBestPrices t book w)) = books w"
  by (simp add: updateBestPrices_def Let_def split: option.splits)

lemma updateBestPrices_bestAsks:
  "bestAsks (fst (updateBestPrices t book w)) tok
     = (if tok = t \<and> book_getBestAsk book \<noteq> None then book_getBestAsk book
        else bestAsks w tok)"
  by (auto simp: updateBestPrices_def Let_def split: option.splits)

lemma updateBestPrices_bestBids:
  "bestBids (fst (updateBestPrices t book w)) tok
     = (if tok = t \<and> book_getBestBid book \<noteq> None then book_getBestBid book
        else bestBids w tok)"
  by (auto simp: updateBestPrices_def Let_def split: option.splits)

lemma handleMessage_keeps_ask:
  assumes "bestAsks w tok = Some a"
    and "case books (fst (handleMessage msg w)) tok of
           None \<Rightarrow> True | Some book \<Rightarrow> book_getBestAsk book = None"
  shows "bestAsks (fst (handleMessage msg w)) tok = Some a"
  using assms
  by (auto simp: handleMessage_def Let_def updateBestPrices_books updateBestPrices_bestAsks
           split: option.splits if_splits)

lemma handleMessage_keeps_bid:
  assumes "bestBids w tok = Some a"
    and "case books (fst (handleMessage msg w)) tok of
           None \<Rightarrow> True | Some book \<Rightarrow> book_getBestBid book = None"
  shows "bestBids (fst (handleMessage msg w)) tok = Some a"
  using assms
  by (auto simp: handleMessage_def Let_def updateBestPrices_books updateBestPrices_bestBids
           split: option.splits if_splits)

lemma handleMessages_keep_ask:
  "bestAsks w tok = Some a \<Longrightarrow> ask_side_stays_empty tok msgs w \<Longrightarrow>
   bestAsks (fst (handleMessages msgs w)) tok = Some a"
proof (induction msgs arbitrary: w)
  case Nil
  then show ?case by simp
next
  case (Cons msg msgs)
  from Cons.prems have "bestAsks (fst (handleMessage msg w)) tok = Some a"
    by (intro handleMessage_keeps_ask) (simp_all add: Let_def)
  moreover from Cons.prems have "ask_side_stays_empty tok msgs (fst (handleMessage msg w))"
    by (simp add: Let_def)
  ultimately show ?case using Cons.IH by (simp add: Let_def)
qed

lemma handleMessages_keep_bid:
  "bestBids w tok = Some a \<Longrightarrow> bid_side_stays_empty tok msgs w \<Longrightarrow>
   bestBids (fst (handleMessages msgs w)) tok = Some a"
proof (induction msgs arbitrary: w)
  case Nil
  then show ?case by simp
next
  case (Cons msg msgs)
  from Cons.prems have "bestBids (fst (handleMessage msg w)) tok = Some a"
    by (intro handleMessage_keeps_bid) (simp_all add: Let_def)
  moreover from Cons.prems have "bid_side_stays_empty tok msgs (fst (handleMessage msg w))"
    by (simp add: Let_def)
  ultimately show ?case using Cons.IH by (simp add: Let_def)
qed

lemma remove_token_best:
  "bestAsks (remove_token t w) tok = (if tok = t then None else bestAsks w tok)"
  "bestBids (remove_token t w) tok = (if tok = t then None else bestBids w tok)"
  by (simp_all add: remove_token_def)

lemma watcher_removeMarkets_keeps_None:
  "bestAsks w tok = None \<Longrightarrow> bestAsks (watcher_removeMarkets ms w) tok = None"
  "bestBids w tok = None \<Longrightarrow> bestBids (watcher_removeMarkets ms w) tok = None"
  unfolding watcher_removeMarkets_def
  by (induction ms arbitrary: w) (simp_all add: remove_token_best)

lemma watcher_removeMarkets_clears:
  "m \<in> set ms \<Longrightarrow> tok = yesTokenId m \<or> tok = noTokenId m \<Longrightarrow>
   bestAsks (watcher_removeMarkets ms w) tok = None
   \<and> bestBids (watcher_removeMarkets ms w) tok = None"
proof (induction ms arbitrary: w)
  case Nil
  then show ?case by simp
next
  case (Cons x xs)
  let ?w1 = "remove_token (noTokenId x) (remove_token (yesTokenId x) w)"
  have step: "watcher_removeMarkets (x # xs) w = watcher_removeMarkets xs ?w1"
    by (simp add: watcher_removeMarkets_def)
  show ?case
  proof (cases "m = x")
    case True
    with Cons.prems(2) have "bestAsks ?w1 tok = None" "bestBids ?w1 tok = None"
      by (auto simp: remove_token_best)
    then show ?thesis unfolding step by (simp add: watcher_removeMarkets_keeps_None)
  next
    case False
    with Cons.prems have "m \<in> set xs" by simp
    then show ?thesis unfolding step using Cons.prems(2) by (rule Cons.IH)
  qed
qed

text \<open>
  C10: once a best ask is cached for a token, messages after which the ask side of that
  token's book is empty leave the cached value in place, so \<^verbatim>\<open>getBestAsk\<close> of the watcher
  keeps returning it; likewise for the best bid; and \<^verbatim>\<open>removeMarkets\<close> of a market with that
  token clears both caches for it.
\<close>

theorem C10_stale_best_prices:
  "(watcher_getBestAsk w tokenId = Some a \<and> ask_side_stays_empty tokenId msgs w
      \<longrightarrow> watcher_getBestAsk (fst (handleMessages msgs w)) tokenId = Some a)
   \<and> (watcher_getBestBid w tokenId = Some b \<and> bid_side_stays_empty tokenId msgs w
      \<longrightarrow> watcher_getBestBid (fst (handleMessages msgs w)) tokenId = Some b)
   \<and> (m \<in> set ms \<and> (tokenId = yesTokenId m \<or> tokenId = noTokenId m)
      \<longrightarrow> watcher_getBestAsk (watcher_removeMarkets ms w) tokenId = None
         \<and> watcher_getBestBid (watcher_removeMarkets ms w) tokenId = None)"
  using handleMessages_keep_ask [of w tokenId a msgs]
    handleMessages_keep_bid [of w tokenId b msgs]
    watcher_removeMarkets_clears [of m ms tokenId w]
  by (simp add: watcher_getBestAsk_def watcher_getBestBid_def)

lemmas eval_watcher =
  watcher_addMarkets_def add_token_def market_A_def
  new_OrderbookWatcher_def handleMessage_def book_msg_def change_msg_def or_empty_def
  applySnapshot_def applyChange_def
  set_ask_def set_bid_def new_OrderBook_def updateBestPrices_def book_getBestAsk_def
  book_getBestBid_def ask_step_def bid_step_def watcher_getBestAsk_def watcher_getBestBid_def
  Let_def

text \<open>
  An instance of C10: token \<open>Y\<close> quoted at ask 0.48 and bid 0.47, then emptied.
\<close>

theorem C10_stale_best_prices_witness:
  "watcher_getBestAsk quoted_both ''Y'' = Some 0.48
   \<and> ask_side_stays_empty ''Y'' emptying_msgs quoted_both
   \<and> watcher_getBestAsk (fst (handleMessages emptying_msgs quoted_both)) ''Y'' = Some 0.48
   \<and> watcher_getBestBid quoted_both ''Y'' = Some 0.47
   \<and> bid_side_stays_empty ''Y'' emptying_msgs quoted_both
   \<and> watcher_getBestBid (fst (handleMessages emptying_msgs quoted_both)) ''Y'' = Some 0.47
   \<and> market_A \<in> set [market_A] \<and> ''Y'' = yesTokenId market_A
   \<and> watcher_getBestAsk (watcher_removeMarkets [market_A] quoted_both) ''Y'' = None
   \<and> watcher_getBestBid (watcher_removeMarkets [market_A] quoted_both) ''Y'' = None"
proof -
  have h1: "watcher_getBestAsk quoted_both ''Y'' = Some 0.48"
    by (simp add: quoted_both_def eval_watcher)
  have h2: "ask_side_stays_empty ''Y'' emptying_msgs quoted_both"
    by (simp add: quoted_both_def emptying_msgs_def eval_watcher)
  have h3: "watcher_getBestBid quoted_both ''Y'' = Some 0.47"
    by (simp add: quoted_both_def eval_watcher)
  have h4: "bid_side_stays_empty ''Y'' emptying_msgs quoted_both"
    by (simp add: quoted_both_def emptying_msgs_def eval_watcher)
  have h5: "market_A \<in> set [market_A]" "''Y'' = yesTokenId market_A"
    by (simp_all add: market_A_def)
  from C10_stale_best_prices [of quoted_both "''Y''" "0.48" emptying_msgs "0.47" market_A "[market_A]"]
    h1 h2 h3 h4 h5
  show ?thesis by blast
qed

section \<open>Spread detector: results\<close>

lemma quotes_asks:
  "watcher_getBestAsk (quotes ya na) ''Y'' = Some ya"
  "watcher_getBestAsk (quotes ya na) ''N'' = Some na"
  by (simp_all add: quotes_def watcher_addMarkets_def add_token_def market_A_def
        new_OrderbookWatcher_def handleMessage_def book_msg_def or_empty_def applySnapshot_def
        set_ask_def set_bid_def new_OrderBook_def updateBestPrices_def book_getBestAsk_def
        book_getBestBid_def ask_step_def watcher_getBestAsk_def Let_def)

lemma detector_A_maps:
  "tokenToMarket detector_A ''Y'' = Some ''A''"
  "tokenToMarket detector_A ''N'' = Some ''A''"
  "tokenToMarket detector_A ''Z'' = None"
  "markets detector_A ''A'' = Some market_A"
  "stats detector_A ''A'' \<noteq> None"
  "windows detector_A ''A'' = None"
  by (simp_all add: detector_A_def detector_addMarkets_def add_market_def new_ArbDetector_def
        market_A_def)

lemma detector_A_wf:
  "dom (markets detector_A) \<subseteq> dom (stats detector_A)"
  by (simp add: detector_A_def detector_addMarkets_def add_market_def new_ArbDetector_def)

text \<open>
  C7: when the token maps to no market, or to a market identifier that \<^verbatim>\<open>markets\<close> does not
  hold, or the best ask of the market's yes token or of its no token is missing, \<^verbatim>\<open>check\<close>
  returns before it touches anything: no callback is called (no event, no window) and the
  detector is the one it was given.
\<close>

theorem C7_check_drops_tick:
  assumes "tokenToMarket d tokenId = None
     \<or> (\<exists>mid. tokenToMarket d tokenId = Some mid \<and> markets d mid = None)
     \<or> (\<exists>mid m. tokenToMarket d tokenId = Some mid \<and> markets d mid = Some m
           \<and> (watcher_getBestAsk w (yesTokenId m) = None
              \<or> watcher_getBestAsk w (noTokenId m) = None))"
  shows "check cfg w now ts tokenId d = Inr (d, [])"
  using assms by (auto simp: check_def split: option.splits)

text \<open>
  An instance of C7: a tick for a token that the detector does not know.
\<close>

theorem C7_check_drops_tick_witness:
  "tokenToMarket detector_A ''Z'' = None
   \<and> check default_config (quotes 0.48 0.49) 5 6 ''Z'' detector_A = Inr (detector_A, [])"
  using C7_check_drops_tick [of detector_A "''Z''" "quotes 0.48 0.49" default_config 5 6]
  by (simp add: detector_A_maps)

lemma closeWindow_Inr:
  assumes "stats d mid \<noteq> None"
  shows "\<exists>d' aws. closeWindow cfg mid market c d = Inr (d', map Window aws)
           \<and> windows d' mid = None"
proof (cases "windows d mid")
  case None
  then have "closeWindow cfg mid market c d = Inr (d, map Window [])"
    by (simp add: closeWindow_def)
  with None show ?thesis by blast
next
  case (Some w)
  from assms obtain s where s: "stats d mid = Some s" by blast
  show ?thesis
  proof (cases "int (length (spreads w)) < MIN_ARB_TICKS cfg")
    case True
    with Some have "closeWindow cfg mid market c d
        = Inr (d\<lparr>windows := (windows d)(mid := None)\<rparr>, map Window [])"
      by (simp add: closeWindow_def)
    then show ?thesis by force
  next
    case False
    with Some s obtain d' aw where
      "closeWindow cfg mid market c d = Inr (d', [Window aw])" "windows d' mid = None"
      by (simp add: closeWindow_def Let_def)
    then have "closeWindow cfg mid market c d = Inr (d', map Window [aw])" by simp
    with \<open>windows d' mid = None\<close> show ?thesis by blast
  qed
qed

text \<open>
  C1: on a tick that \<^verbatim>\<open>check\<close> processes (the token resolves to a market with statistics and
  both best asks are known) it calls \<^verbatim>\<open>onEvent\<close> exactly once, last, with
  \<open>combined = yes_ask + no_ask\<close>, \<open>spread = 1 - combined\<close> and \<open>isArb\<close> true exactly when
  \<open>combined\<close> is strictly below \<^verbatim>\<open>MIN_COMBINED_THRESHOLD\<close>; a \<open>combined\<close> equal to the
  threshold is not an arbitrage tick. The classification drives the window: the market has
  an active window after the tick exactly when the tick is an arbitrage tick. Numbers are
  reals here, so the sum and the difference are exact.
\<close>

theorem C1_check_classifies_tick:
  assumes "tokenToMarket d tokenId = Some mid" and "mid \<noteq> []"
    and "markets d mid = Some m" and "stats d mid \<noteq> None"
    and "watcher_getBestAsk w (yesTokenId m) = Some yes_ask"
    and "watcher_getBestAsk w (noTokenId m) = Some no_ask"
  shows "\<exists>d' aws e. check cfg w now ts tokenId d = Inr (d', map Window aws @ [Event e])
           \<and> e_yesAsk e = yes_ask \<and> e_noAsk e = no_ask
           \<and> e_combined e = yes_ask + no_ask
           \<and> e_spread e = 1 - (yes_ask + no_ask)
           \<and> e_isArb e = (yes_ask + no_ask < MIN_COMBINED_THRESHOLD cfg)
           \<and> (yes_ask + no_ask = MIN_COMBINED_THRESHOLD cfg \<longrightarrow> \<not> e_isArb e)
           \<and> (e_isArb e \<longleftrightarrow> windows d' mid \<noteq> None)"
proof -
  from assms(4) obtain s0 where s0: "stats d mid = Some s0" by blast
  let ?combined = "yes_ask + no_ask"
  let ?isArb = "?combined < MIN_COMBINED_THRESHOLD cfg"
  let ?s = "s0\<lparr>s_tickCount := s_tickCount s0 + 1, s_currentCombined := Some ?combined\<rparr>"
  let ?d1 = "d\<lparr>stats := (stats d)(mid \<mapsto> ?s)\<rparr>"
  let ?e = "\<lparr>e_timestamp = ts, e_marketId = mid, e_question = question m,
             e_timeframe = timeframe m, e_yesAsk = yes_ask, e_noAsk = no_ask,
             e_combined = ?combined, e_spread = 1 - ?combined, e_isArb = ?isArb\<rparr>"
  have ev: "e_yesAsk ?e = yes_ask \<and> e_noAsk ?e = no_ask
           \<and> e_combined ?e = yes_ask + no_ask
           \<and> e_spread ?e = 1 - (yes_ask + no_ask)
           \<and> e_isArb ?e = (yes_ask + no_ask < MIN_COMBINED_THRESHOLD cfg)
           \<and> (yes_ask + no_ask = MIN_COMBINED_THRESHOLD cfg \<longrightarrow> \<not> e_isArb ?e)"
    by simp
  have "\<exists>d' aws. check cfg w now ts tokenId d = Inr (d', map Window aws @ [Event ?e])
          \<and> (?isArb \<longleftrightarrow> windows d' mid \<noteq> None)"
  proof (cases ?isArb)
    case True
    show ?thesis
    proof (cases "windows d mid")
      case None
      with True assms s0
      have "\<exists>d'. check cfg w now ts tokenId d = Inr (d', map Window [] @ [Event ?e])
          \<and> (?isArb \<longleftrightarrow> windows d' mid \<noteq> None)"
        by (simp add: check_def Let_def)
      then show ?thesis by blast
    next
      case (Some win)
      with True assms s0
      have "\<exists>d'. check cfg w now ts tokenId d = Inr (d', map Window [] @ [Event ?e])
          \<and> (?isArb \<longleftrightarrow> windows d' mid \<noteq> None)"
        by (simp add: check_def Let_def)
      then show ?thesis by blast
    qed
  next
    case False
    show ?thesis
    proof (cases "windows d mid")
      case None
      with False assms s0
      have "\<exists>d'. check cfg w now ts tokenId d = Inr (d', map Window [] @ [Event ?e])
          \<and> (?isArb \<longleftrightarrow> windows d' mid \<noteq> None)"
        by (simp add: check_def Let_def)
      then show ?thesis by blast
    next
      case (Some win)
      have "stats ?d1 mid \<noteq> None" by simp
      from closeWindow_Inr [OF this, of cfg m ?combined]
      obtain d' aws where cw: "closeWindow cfg mid m ?combined ?d1 = Inr (d', map Window aws)"
        "windows d' mid = None" by blast
      with Some False assms s0
      have "check cfg w now ts tokenId d = Inr (d', map Window aws @ [Event ?e])
          \<and> (?isArb \<longleftrightarrow> windows d' mid \<noteq> None)"
        by (simp add: check_def Let_def)
      then show ?thesis by blast
    qed
  qed
  then obtain d' aws where
    "check cfg w now ts tokenId d = Inr (d', map Window aws @ [Event ?e])"
    "?isArb \<longleftrightarrow> windows d' mid \<noteq> None" by blast
  with ev show ?thesis
    by (intro exI [where x = d'] exI [where x = aws] exI [where x = ?e]) simp
qed

text \<open>
  An instance of C1, at the boundary: 0.5 + 0.5 is not below the default threshold 1.
\<close>

theorem C1_check_classifies_tick_witness:
  "tokenToMarket detector_A ''Y'' = Some ''A'' \<and> ''A'' \<noteq> []
   \<and> markets detector_A ''A'' = Some market_A \<and> stats detector_A ''A'' \<noteq> None
   \<and> watcher_getBestAsk (quotes 0.5 0.5) (yesTokenId market_A) = Some 0.5
   \<and> watcher_getBestAsk (quotes 0.5 0.5) (noTokenId market_A) = Some 0.5
   \<and> (\<exists>d' aws e. check default_config (quotes 0.5 0.5) 5 6 ''Y'' detector_A
                      = Inr (d', map Window aws @ [Event e])
          \<and> e_combined e = 1 \<and> e_spread e = 0 \<and> \<not> e_isArb e \<and> windows d' ''A'' = None)"
proof -
  have h1: "tokenToMarket detector_A ''Y'' = Some ''A''" by (rule detector_A_maps)
  have h2: "''A'' \<noteq> []" by simp
  have h3: "markets detector_A ''A'' = Some market_A" by (rule detector_A_maps)
  have h4: "stats detector_A ''A'' \<noteq> None" by (rule detector_A_maps)
  have h5: "watcher_getBestAsk (quotes 0.5 0.5) (yesTokenId market_A) = Some 0.5"
    by (simp add: market_A_def quotes_asks)
  have h6: "watcher_getBestAsk (quotes 0.5 0.5) (noTokenId market_A) = Some 0.5"
    by (simp add: market_A_def quotes_asks)
  from C1_check_classifies_tick [OF h1 h2 h3 h4 h5 h6, of default_config 5 6]
  obtain d' aws e where
    c: "check default_config (quotes 0.5 0.5) 5 6 ''Y'' detector_A
          = Inr (d', map Window aws @ [Event e])"
    and e: "e_combined e = 0.5 + 0.5" "e_spread e = 1 - (0.5 + 0.5)"
      "e_isArb e = (0.5 + 0.5 < MIN_COMBINED_THRESHOLD default_config)"
      "e_isArb e \<longleftrightarrow> windows d' ''A'' \<noteq> None"
    by blast
  from e have "e_combined e = 1" "e_spread e = 0" "\<not> e_isArb e" "windows d' ''A'' = None"
    by (simp_all add: default_config_def)
  with c have "\<exists>d' aws e. check default_config (quotes 0.5 0.5) 5 6 ''Y'' detector_A
                      = Inr (d', map Window aws @ [Event e])
          \<and> e_combined e = 1 \<and> e_spread e = 0 \<and> \<not> e_isArb e \<and> windows d' ''A'' = None"
    by blast
  with h1 h2 h3 h4 h5 h6 show ?thesis by blast
qed

lemma closeWindow_spec:
  assumes "windows d mid = Some win" and "stats d mid \<noteq> None"
  shows "\<exists>d' out. closeWindow cfg mid market c d = Inr (d', out)
           \<and> windows d' = (windows d)(mid := None)
           \<and> markets d' = markets d \<and> tokenToMarket d' = tokenToMarket d
           \<and> dom (stats d') = dom (stats d)
           \<and> (\<forall>x. x \<noteq> mid \<longrightarrow> stats d' x = stats d x)
           \<and> (\<forall>s. stats d mid = Some s \<longrightarrow>
                 (\<exists>s'. stats d' mid = Some s' \<and> s_currentCombined s' = s_currentCombined s))
           \<and> (if int (length (spreads win)) < MIN_ARB_TICKS cfg then out = []
              else \<exists>aw. out = [Window aw] \<and> w_marketId aw = mid
                     \<and> w_tickCount aw = length (spreads win)
                     \<and> w_openCombined aw = openCombined win \<and> w_closeCombined aw = c
                     \<and> w_windowStart aw = startTs win \<and> w_windowEnd aw = lastArbTickTs win
                     \<and> w_peakSpread aw = Math_max (spreads win)
                     \<and> w_avgSpread aw = average (spreads win))"
proof -
  from assms(2) obtain s where s: "stats d mid = Some s" by blast
  show ?thesis
  proof (cases "int (length (spreads win)) < MIN_ARB_TICKS cfg")
    case True
    with assms(1) s show ?thesis by (simp add: closeWindow_def)
  next
    case False
    with assms(1) s show ?thesis
      by (auto simp: closeWindow_def Let_def split: option.splits)
  qed
qed

lemma check_dropped:
  assumes "tokenToMarket d tokenId = None
     \<or> (\<exists>mid. tokenToMarket d tokenId = Some mid \<and> (mid = [] \<or> markets d mid = None))
     \<or> (\<exists>mid m. tokenToMarket d tokenId = Some mid \<and> markets d mid = Some m
           \<and> (watcher_getBestAsk w (yesTokenId m) = None
              \<or> watcher_getBestAsk w (noTokenId m) = None))"
  shows "check cfg w now ts tokenId d = Inr (d, [])"
  using assms by (auto simp: check_def split: option.splits)

lemma check_processed:
  assumes "tokenToMarket d tokenId = Some mid" and "mid \<noteq> []"
    and "markets d mid = Some m" and "stats d mid \<noteq> None"
    and "watcher_getBestAsk w (yesTokenId m) = Some yes_ask"
    and "watcher_getBestAsk w (noTokenId m) = Some no_ask"
  shows "\<exists>d' out e. check cfg w now ts tokenId d = Inr (d', out)
           \<and> markets d' = markets d \<and> tokenToMarket d' = tokenToMarket d
           \<and> dom (stats d') = dom (stats d)
           \<and> (\<forall>x. x \<noteq> mid \<longrightarrow> windows d' x = windows d x \<and> stats d' x = stats d x)
           \<and> e_marketId e = mid
           \<and> e_isArb e = (yes_ask + no_ask < MIN_COMBINED_THRESHOLD cfg)
           \<and> (\<exists>s'. stats d' mid = Some s' \<and> s_currentCombined s' = Some (yes_ask + no_ask))
           \<and> (if yes_ask + no_ask < MIN_COMBINED_THRESHOLD cfg
              then out = [Event e] \<and> window_len d' mid = Suc (window_len d mid)
                   \<and> windows d' mid \<noteq> None
              else windows d' mid = None
                   \<and> (if int (window_len d mid) < MIN_ARB_TICKS cfg \<or> windows d mid = None
                      then out = [Event e]
                      else \<exists>aw. out = [Window aw, Event e] \<and> w_marketId aw = mid
                             \<and> w_tickCount aw = window_len d mid))"
proof -
  from assms(4) obtain s0 where s0: "stats d mid = Some s0" by blast
  let ?combined = "yes_ask + no_ask"
  let ?isArb = "?combined < MIN_COMBINED_THRESHOLD cfg"
  let ?s = "s0\<lparr>s_tickCount := s_tickCount s0 + 1, s_currentCombined := Some ?combined\<rparr>"
  let ?d1 = "d\<lparr>stats := (stats d)(mid \<mapsto> ?s)\<rparr>"
  let ?e = "\<lparr>e_timestamp = ts, e_marketId = mid, e_question = question m,
             e_timeframe = timeframe m, e_yesAsk = yes_ask, e_noAsk = no_ask,
             e_combined = ?combined, e_spread = 1 - ?combined, e_isArb = ?isArb\<rparr>"
  have dom1: "dom (stats ?d1) = dom (stats d)" using s0 by auto
  have cur: "s_currentCombined (arb_tick now x s) = s_currentCombined s" for x s
    by (simp add: arb_tick_def Let_def)
  show ?thesis
  proof (cases ?isArb)
    case True
    show ?thesis
    proof (cases "windows d mid")
      case None
      with True assms s0 dom1 show ?thesis
        by (intro exI [where x = ?e] exI)
           (auto simp: check_def Let_def window_len_def cur)
    next
      case (Some win)
      with True assms s0 dom1 show ?thesis
        by (intro exI [where x = ?e] exI)
           (auto simp: check_def Let_def window_len_def cur)
    qed
  next
    case False
    show ?thesis
    proof (cases "windows d mid")
      case None
      with False assms s0 dom1 show ?thesis
        by (intro exI [where x = ?e] exI)
           (auto simp: check_def Let_def window_len_def)
    next
      case (Some win)
      have "windows ?d1 mid = Some win" "stats ?d1 mid \<noteq> None" using Some by simp_all
      from closeWindow_spec [OF this, of cfg m ?combined]
      obtain d' out where full:
        "closeWindow cfg mid m ?combined ?d1 = Inr (d', out)
           \<and> windows d' = (windows ?d1)(mid := None)
           \<and> markets d' = markets ?d1 \<and> tokenToMarket d' = tokenToMarket ?d1
           \<and> dom (stats d') = dom (stats ?d1)
           \<and> (\<forall>x. x \<noteq> mid \<longrightarrow> stats d' x = stats ?d1 x)
           \<and> (\<forall>s. stats ?d1 mid = Some s \<longrightarrow>
                 (\<exists>s'. stats d' mid = Some s' \<and> s_currentCombined s' = s_currentCombined s))
           \<and> (if int (length (spreads win)) < MIN_ARB_TICKS cfg then out = []
              else \<exists>aw. out = [Window aw] \<and> w_marketId aw = mid
                     \<and> w_tickCount aw = length (spreads win)
                     \<and> w_openCombined aw = openCombined win \<and> w_closeCombined aw = ?combined
                     \<and> w_windowStart aw = startTs win \<and> w_windowEnd aw = lastArbTickTs win
                     \<and> w_peakSpread aw = Math_max (spreads win)
                     \<and> w_avgSpread aw = average (spreads win))"
        by (elim exE) (rule that)
      then have cw: "closeWindow cfg mid m ?combined ?d1 = Inr (d', out)"
        and d': "windows d' = (windows ?d1)(mid := None)" "markets d' = markets ?d1"
          "tokenToMarket d' = tokenToMarket ?d1" "dom (stats d') = dom (stats ?d1)"
          "\<forall>x. x \<noteq> mid \<longrightarrow> stats d' x = stats ?d1 x"
          "\<forall>s. stats ?d1 mid = Some s \<longrightarrow>
                 (\<exists>s'. stats d' mid = Some s' \<and> s_currentCombined s' = s_currentCombined s)"
        by blast+
      from full have out: "if int (length (spreads win)) < MIN_ARB_TICKS cfg then out = []
              else \<exists>aw. out = [Window aw] \<and> w_marketId aw = mid
                     \<and> w_tickCount aw = length (spreads win)"
        by (cases "int (length (spreads win)) < MIN_ARB_TICKS cfg") auto
      have chk: "check cfg w now ts tokenId d = Inr (d', out @ [Event ?e])"
        using Some False assms s0 cw by (simp add: check_def Let_def)
      have st: "\<exists>s'. stats d' mid = Some s' \<and> s_currentCombined s' = Some ?combined"
        using d'(6) by simp
      have outs: "if int (window_len d mid) < MIN_ARB_TICKS cfg \<or> windows d mid = None
                      then out @ [Event ?e] = [Event ?e]
                      else \<exists>aw. out @ [Event ?e] = [Window aw, Event ?e] \<and> w_marketId aw = mid
                             \<and> w_tickCount aw = window_len d mid"
        using out Some by (auto simp: window_len_def)
      show ?thesis
        using chk d'(1-5) dom1 st outs False
        by (intro exI [where x = d'] exI [where x = "out @ [Event ?e]"] exI [where x = ?e])
           simp
    qed
  qed
qed

lemma surfaced_after_run_tickCount:
  "surfaced_after_run k mid run out \<Longrightarrow> Window aw \<in> set out \<Longrightarrow> w_marketId aw = mid
     \<Longrightarrow> k \<le> int (w_tickCount aw)"
proof (induction out arbitrary: run)
  case Nil
  then show ?case by simp
next
  case (Cons x out)
  show ?case
  proof (cases x)
    case (Event e)
    with Cons.prems Cons.IH show ?thesis by auto
  next
    case (Window aw')
    with Cons.prems Cons.IH show ?thesis by auto
  qed
qed

lemma check_step:
  assumes wf: "dom (markets d) \<subseteq> dom (stats d)"
  shows "\<exists>d' out. check cfg w now ts tok d = Inr (d', out)
           \<and> dom (markets d') \<subseteq> dom (stats d')
           \<and> (\<forall>rest. surfaced_after_run (MIN_ARB_TICKS cfg) mid (window_len d mid) (out @ rest)
                  = surfaced_after_run (MIN_ARB_TICKS cfg) mid (window_len d' mid) rest)"
proof -
  let ?dropped = "tokenToMarket d tok = None
     \<or> (\<exists>mid. tokenToMarket d tok = Some mid \<and> (mid = [] \<or> markets d mid = None))
     \<or> (\<exists>mid m. tokenToMarket d tok = Some mid \<and> markets d mid = Some m
           \<and> (watcher_getBestAsk w (yesTokenId m) = None
              \<or> watcher_getBestAsk w (noTokenId m) = None))"
  show ?thesis
  proof (cases ?dropped)
    case True
    then have "check cfg w now ts tok d = Inr (d, [])" by (rule check_dropped)
    with wf show ?thesis by simp
  next
    case False
    then obtain mid' where p1: "tokenToMarket d tok = Some mid'"
      by (cases "tokenToMarket d tok") auto
    with False have p2: "mid' \<noteq> []" by auto
    from False p1 obtain m where p3: "markets d mid' = Some m"
      by (cases "markets d mid'") auto
    from False p1 p3 obtain ya where p4: "watcher_getBestAsk w (yesTokenId m) = Some ya"
      by (cases "watcher_getBestAsk w (yesTokenId m)") auto
    from False p1 p3 obtain na where p5: "watcher_getBestAsk w (noTokenId m) = Some na"
      by (cases "watcher_getBestAsk w (noTokenId m)") auto
    note processed = p1 p2 p3 p4 p5
    from processed(3) wf have st: "stats d mid' \<noteq> None" by blast
    from check_processed [OF processed(1,2,3) st processed(4,5), of cfg now ts]
    obtain d' out e where chk: "check cfg w now ts tok d = Inr (d', out)"
      and keep: "markets d' = markets d" "dom (stats d') = dom (stats d)"
        "\<forall>x. x \<noteq> mid' \<longrightarrow> windows d' x = windows d x \<and> stats d' x = stats d x"
      and e: "e_marketId e = mid'" "e_isArb e = (ya + na < MIN_COMBINED_THRESHOLD cfg)"
      and br: "if ya + na < MIN_COMBINED_THRESHOLD cfg
              then out = [Event e] \<and> window_len d' mid' = Suc (window_len d mid')
                   \<and> windows d' mid' \<noteq> None
              else windows d' mid' = None
                   \<and> (if int (window_len d mid') < MIN_ARB_TICKS cfg \<or> windows d mid' = None
                      then out = [Event e]
                      else \<exists>aw. out = [Window aw, Event e] \<and> w_marketId aw = mid'
                             \<and> w_tickCount aw = window_len d mid')"
      by blast
    have wf': "dom (markets d') \<subseteq> dom (stats d')" using wf keep by simp
    have tr: "surfaced_after_run (MIN_ARB_TICKS cfg) mid (window_len d mid) (out @ rest)
                  = surfaced_after_run (MIN_ARB_TICKS cfg) mid (window_len d' mid) rest" for rest
    proof (cases "mid' = mid")
      case False
      then have same: "window_len d' mid = window_len d mid"
        using keep(3) by (simp add: window_len_def)
      from br e False show ?thesis
        by (auto simp: same split: if_splits)
    next
      case True
      show ?thesis
      proof (cases "ya + na < MIN_COMBINED_THRESHOLD cfg")
        case arb: True
        with br e True show ?thesis by simp
      next
        case noarb: False
        with br have none: "window_len d' mid = 0" using True by (simp add: window_len_def)
        from noarb br e True show ?thesis
          by (auto simp: none split: if_splits)
      qed
    qed
    from chk wf' tr show ?thesis by blast
  qed
qed

lemma checks_trace:
  "dom (markets d) \<subseteq> dom (stats d) \<Longrightarrow>
   \<exists>d' out. checks cfg ticks d = Inr (d', out)
      \<and> surfaced_after_run (MIN_ARB_TICKS cfg) mid (window_len d mid) out"
proof (induction ticks arbitrary: d)
  case Nil
  then show ?case by simp
next
  case (Cons t ticks)
  from check_step [OF Cons.prems, of cfg "t_watcher t" "t_now t" "t_ts t" "t_tokenId t" mid]
  obtain d1 out1 where c1: "check cfg (t_watcher t) (t_now t) (t_ts t) (t_tokenId t) d = Inr (d1, out1)"
    and wf1: "dom (markets d1) \<subseteq> dom (stats d1)"
    and tr: "\<And>rest. surfaced_after_run (MIN_ARB_TICKS cfg) mid (window_len d mid) (out1 @ rest)
                  = surfaced_after_run (MIN_ARB_TICKS cfg) mid (window_len d1 mid) rest"
    by blast
  from Cons.IH [OF wf1] obtain d2 out2 where c2: "checks cfg ticks d1 = Inr (d2, out2)"
    and s2: "surfaced_after_run (MIN_ARB_TICKS cfg) mid (window_len d1 mid) out2"
    by blast
  have "checks cfg (t # ticks) d = Inr (d2, out1 @ out2)" using c1 c2 by simp
  moreover have "surfaced_after_run (MIN_ARB_TICKS cfg) mid (window_len d mid) (out1 @ out2)"
    using tr s2 by simp
  ultimately show ?case by blast
qed

text \<open>
  C2: run any sequence of ticks through \<^verbatim>\<open>check\<close>, from a detector whose markets all have
  statistics and in which market \<open>mid\<close> has no active window. The run does not throw, and
  every \<^verbatim>\<open>onWindow\<close> call for \<open>mid\<close> comes right after a run of consecutive arbitrage ticks of
  \<open>mid\<close> whose length is the window's \<^verbatim>\<open>tickCount\<close> and is at least \<^verbatim>\<open>MIN_ARB_TICKS\<close>
  (\<^const>\<open>surfaced_after_run\<close> counts the arbitrage events of \<open>mid\<close> since its last
  non-arbitrage event). So with \<^verbatim>\<open>MIN_ARB_TICKS = 2\<close> one arbitrage tick followed by a
  non-arbitrage tick surfaces nothing. Every surfaced window, of any market, has
  \<^verbatim>\<open>tickCount >= MIN_ARB_TICKS\<close>.
\<close>

theorem C2_surfaced_windows_have_min_arb_ticks:
  assumes "dom (markets d) \<subseteq> dom (stats d)" and "windows d mid = None"
  shows "\<exists>d' out. checks cfg ticks d = Inr (d', out)
           \<and> surfaced_after_run (MIN_ARB_TICKS cfg) mid 0 out
           \<and> (\<forall>aw. Window aw \<in> set out \<longrightarrow> MIN_ARB_TICKS cfg \<le> int (w_tickCount aw))"
proof -
  from checks_trace [OF assms(1), of cfg ticks mid]
  obtain d' out where c: "checks cfg ticks d = Inr (d', out)"
    and s: "surfaced_after_run (MIN_ARB_TICKS cfg) mid (window_len d mid) out" by blast
  have s0: "surfaced_after_run (MIN_ARB_TICKS cfg) mid 0 out"
    using s assms(2) by (simp add: window_len_def)
  have "MIN_ARB_TICKS cfg \<le> int (w_tickCount aw)" if aw: "Window aw \<in> set out" for aw
  proof -
    from checks_trace [OF assms(1), of cfg ticks "w_marketId aw"] c
    have "surfaced_after_run (MIN_ARB_TICKS cfg) (w_marketId aw)
            (window_len d (w_marketId aw)) out" by simp
    from surfaced_after_run_tickCount [OF this aw] show ?thesis by simp
  qed
  with c s0 show ?thesis by blast
qed

lemmas eval_detector =
  glitch_then_window_def tick_A_def check_def closeWindow_def quotes_asks detector_A_def
  detector_addMarkets_def add_market_def new_ArbDetector_def market_A_def default_config_def
  arb_tick_def average_def Let_def

lemma glitch_then_window_run:
  "map is_Window (case checks default_config glitch_then_window detector_A of
                    Inl e \<Rightarrow> [] | Inr r \<Rightarrow> snd r)
     = [False, False, False, False, True, False]"
  by (simp add: eval_detector)

text \<open>
  An instance of C2: the glitch surfaces nothing, the two-tick window is surfaced once.
\<close>

theorem C2_surfaced_windows_witness:
  "dom (markets detector_A) \<subseteq> dom (stats detector_A) \<and> windows detector_A ''A'' = None
   \<and> (\<exists>d' out. checks default_config glitch_then_window detector_A = Inr (d', out)
          \<and> surfaced_after_run 2 ''A'' 0 out
          \<and> (\<forall>aw. Window aw \<in> set out \<longrightarrow> 2 \<le> int (w_tickCount aw))
          \<and> map is_Window out = [False, False, False, False, True, False])"
proof -
  have h1: "dom (markets detector_A) \<subseteq> dom (stats detector_A)" by (rule detector_A_wf)
  have h2: "windows detector_A ''A'' = None" by (rule detector_A_maps)
  from C2_surfaced_windows_have_min_arb_ticks [OF h1 h2, of default_config glitch_then_window]
  obtain d' out where c: "checks default_config glitch_then_window detector_A = Inr (d', out)"
    and s: "surfaced_after_run (MIN_ARB_TICKS default_config) ''A'' 0 out"
    and t: "\<forall>aw. Window aw \<in> set out \<longrightarrow> MIN_ARB_TICKS default_config \<le> int (w_tickCount aw)"
    by blast
  have k: "MIN_ARB_TICKS default_config = 2" by (simp add: default_config_def)
  have "map is_Window out = [False, False, False, False, True, False]"
    using glitch_then_window_run c by simp
  with c s t have "\<exists>d' out. checks default_config glitch_then_window detector_A = Inr (d', out)
          \<and> surfaced_after_run 2 ''A'' 0 out
          \<and> (\<forall>aw. Window aw \<in> set out \<longrightarrow> 2 \<le> int (w_tickCount aw))
          \<and> map is_Window out = [False, False, False, False, True, False]"
    unfolding k by (intro exI [where x = d'] exI [where x = out]) simp
  with h1 h2 show ?thesis by (intro conjI)
qed

lemma remove_market_spec:
  assumes wf: "dom (windows d) \<subseteq> dom (stats d)"
  shows "\<exists>d' out. remove_market cfg x d = Inr (d', out)
           \<and> markets d' = (markets d)(marketId x := None)
           \<and> stats d' = (stats d)(marketId x := None)
           \<and> windows d' = (windows d)(marketId x := None)
           \<and> tokenToMarket d' = (tokenToMarket d)(yesTokenId x := None, noTokenId x := None)
           \<and> (case windows d (marketId x) of
                None \<Rightarrow> out = []
              | Some win \<Rightarrow>
                  if int (length (spreads win)) < MIN_ARB_TICKS cfg then out = []
                  else \<exists>aw. out = [Window aw] \<and> w_marketId aw = marketId x
                         \<and> w_tickCount aw = length (spreads win)
                         \<and> w_openCombined aw = openCombined win
                         \<and> w_closeCombined aw = last_combined d (marketId x)
                         \<and> w_windowStart aw = startTs win \<and> w_windowEnd aw = lastArbTickTs win
                         \<and> w_peakSpread aw = Math_max (spreads win)
                         \<and> w_avgSpread aw = average (spreads win))"
proof (cases "windows d (marketId x)")
  case None
  then have "(windows d)(marketId x := None) = windows d" by (intro ext) simp
  with None show ?thesis by (simp add: remove_market_def)
next
  case (Some win)
  let ?mid = "marketId x"
  let ?c = "last_combined d ?mid"
  from Some wf have st: "stats d ?mid \<noteq> None" by blast
  from closeWindow_spec [OF Some st, of cfg x ?c]
  obtain d1 out where full:
    "closeWindow cfg ?mid x ?c d = Inr (d1, out)
       \<and> windows d1 = (windows d)(?mid := None)
       \<and> markets d1 = markets d \<and> tokenToMarket d1 = tokenToMarket d
       \<and> dom (stats d1) = dom (stats d)
       \<and> (\<forall>y. y \<noteq> ?mid \<longrightarrow> stats d1 y = stats d y)
       \<and> (\<forall>s. stats d ?mid = Some s \<longrightarrow>
             (\<exists>s'. stats d1 ?mid = Some s' \<and> s_currentCombined s' = s_currentCombined s))
       \<and> (if int (length (spreads win)) < MIN_ARB_TICKS cfg then out = []
          else \<exists>aw. out = [Window aw] \<and> w_marketId aw = ?mid
                 \<and> w_tickCount aw = length (spreads win)
                 \<and> w_openCombined aw = openCombined win \<and> w_closeCombined aw = ?c
                 \<and> w_windowStart aw = startTs win \<and> w_windowEnd aw = lastArbTickTs win
                 \<and> w_peakSpread aw = Math_max (spreads win)
                 \<and> w_avgSpread aw = average (spreads win))"
    by (elim exE) (rule that)
  then have cw: "closeWindow cfg ?mid x ?c d = Inr (d1, out)"
    and d1: "windows d1 = (windows d)(?mid := None)" "markets d1 = markets d"
      "tokenToMarket d1 = tokenToMarket d"
    and oth: "\<forall>y. y \<noteq> ?mid \<longrightarrow> stats d1 y = stats d y"
    by blast+
  let ?d' = "d1\<lparr>markets := (markets d1)(?mid := None), stats := (stats d1)(?mid := None),
               tokenToMarket := (tokenToMarket d1)(yesTokenId x := None, noTokenId x := None)\<rparr>"
  have rm: "remove_market cfg x d = Inr (?d', out)"
    using Some cw by (simp add: remove_market_def last_combined_def)
  have st': "(stats d1)(?mid := None) = (stats d)(?mid := None)"
    using oth by (intro ext) simp
  have "markets ?d' = (markets d)(?mid := None)" "stats ?d' = (stats d)(?mid := None)"
    "windows ?d' = (windows d)(?mid := None)"
    "tokenToMarket ?d' = (tokenToMarket d)(yesTokenId x := None, noTokenId x := None)"
    using d1 st' by simp_all
  with rm full Some show ?thesis
    by (intro exI [where x = ?d'] exI [where x = out]) simp
qed

lemma removeMarkets_shrinks:
  "dom (windows d) \<subseteq> dom (stats d) \<Longrightarrow>
   \<exists>d' out. detector_removeMarkets cfg ms d = Inr (d', out)
      \<and> (\<forall>k. markets d k = None \<longrightarrow> markets d' k = None)
      \<and> (\<forall>k. stats d k = None \<longrightarrow> stats d' k = None)
      \<and> (\<forall>k. windows d k = None \<longrightarrow> windows d' k = None)
      \<and> (\<forall>k. tokenToMarket d k = None \<longrightarrow> tokenToMarket d' k = None)
      \<and> (\<forall>k. windows d k = None \<longrightarrow> filter (\<lambda>x. emit_marketId x = k) out = [])"
proof (induction ms arbitrary: d)
  case Nil
  then show ?case by simp
next
  case (Cons x xs)
  from remove_market_spec [OF Cons.prems, of cfg x]
  obtain d1 out1 where r1: "remove_market cfg x d = Inr (d1, out1)"
    and m1: "markets d1 = (markets d)(marketId x := None)"
      "stats d1 = (stats d)(marketId x := None)"
      "windows d1 = (windows d)(marketId x := None)"
      "tokenToMarket d1 = (tokenToMarket d)(yesTokenId x := None, noTokenId x := None)"
    and o1: "case windows d (marketId x) of
                None \<Rightarrow> out1 = []
              | Some win \<Rightarrow>
                  if int (length (spreads win)) < MIN_ARB_TICKS cfg then out1 = []
                  else \<exists>aw. out1 = [Window aw] \<and> w_marketId aw = marketId x
                         \<and> w_tickCount aw = length (spreads win)
                         \<and> w_openCombined aw = openCombined win
                         \<and> w_closeCombined aw = last_combined d (marketId x)
                         \<and> w_windowStart aw = startTs win \<and> w_windowEnd aw = lastArbTickTs win
                         \<and> w_peakSpread aw = Math_max (spreads win)
                         \<and> w_avgSpread aw = average (spreads win)"
    by blast
  have wf1: "dom (windows d1) \<subseteq> dom (stats d1)" using Cons.prems m1 by auto
  from Cons.IH [OF wf1] obtain d2 out2 where
    r2: "detector_removeMarkets cfg xs d1 = Inr (d2, out2)"
    and m2: "\<forall>k. markets d1 k = None \<longrightarrow> markets d2 k = None"
      "\<forall>k. stats d1 k = None \<longrightarrow> stats d2 k = None"
      "\<forall>k. windows d1 k = None \<longrightarrow> windows d2 k = None"
      "\<forall>k. tokenToMarket d1 k = None \<longrightarrow> tokenToMarket d2 k = None"
      "\<forall>k. windows d1 k = None \<longrightarrow> filter (\<lambda>x. emit_marketId x = k) out2 = []"
    by blast
  have run: "detector_removeMarkets cfg (x # xs) d = Inr (d2, out1 @ out2)"
    using r1 r2 by simp
  have f1: "filter (\<lambda>x. emit_marketId x = k) out1 = []" if "windows d k = None" for k
    using o1 that by (cases "windows d (marketId x)") (auto split: if_splits)
  have "\<forall>k. markets d k = None \<longrightarrow> markets d2 k = None" using m1 m2 by simp
  moreover have "\<forall>k. stats d k = None \<longrightarrow> stats d2 k = None" using m1 m2 by simp
  moreover have "\<forall>k. windows d k = None \<longrightarrow> windows d2 k = None" using m1 m2 by simp
  moreover have "\<forall>k. tokenToMarket d k = None \<longrightarrow> tokenToMarket d2 k = None"
    using m1 m2 by simp
  moreover have "\<forall>k. windows d k = None \<longrightarrow> filter (\<lambda>x. emit_marketId x = k) (out1 @ out2) = []"
    using f1 m1 m2 by simp
  ultimately show ?case using run by blast
qed

lemma removeMarkets_absent:
  "dom (windows d) \<subseteq> dom (stats d) \<Longrightarrow> m \<in> set ms \<Longrightarrow>
   \<exists>d' out. detector_removeMarkets cfg ms d = Inr (d', out)
      \<and> markets d' (marketId m) = None \<and> stats d' (marketId m) = None
      \<and> windows d' (marketId m) = None
      \<and> tokenToMarket d' (yesTokenId m) = None \<and> tokenToMarket d' (noTokenId m) = None"
proof (induction ms arbitrary: d)
  case Nil
  then show ?case by simp
next
  case (Cons x xs)
  from remove_market_spec [OF Cons.prems(1), of cfg x]
  obtain d1 out1 where r1: "remove_market cfg x d = Inr (d1, out1)"
    and m1: "markets d1 = (markets d)(marketId x := None)"
      "stats d1 = (stats d)(marketId x := None)"
      "windows d1 = (windows d)(marketId x := None)"
      "tokenToMarket d1 = (tokenToMarket d)(yesTokenId x := None, noTokenId x := None)"
    by blast
  have wf1: "dom (windows d1) \<subseteq> dom (stats d1)" using Cons.prems(1) m1 by auto
  show ?case
  proof (cases "m = x")
    case True
    from removeMarkets_shrinks [OF wf1, of cfg xs] obtain d2 out2 where
      r2: "detector_removeMarkets cfg xs d1 = Inr (d2, out2)"
      and m2: "\<forall>k. markets d1 k = None \<longrightarrow> markets d2 k = None"
        "\<forall>k. stats d1 k = None \<longrightarrow> stats d2 k = None"
        "\<forall>k. windows d1 k = None \<longrightarrow> windows d2 k = None"
        "\<forall>k. tokenToMarket d1 k = None \<longrightarrow> tokenToMarket d2 k = None"
      by blast
    have "detector_removeMarkets cfg (x # xs) d = Inr (d2, out1 @ out2)"
      using r1 r2 by simp
    moreover have "markets d2 (marketId m) = None" "stats d2 (marketId m) = None"
      "windows d2 (marketId m) = None" "tokenToMarket d2 (yesTokenId m) = None"
      "tokenToMarket d2 (noTokenId m) = None"
      using m1 m2 True by simp_all
    ultimately show ?thesis by blast
  next
    case False
    with Cons.prems(2) have "m \<in> set xs" by simp
    from Cons.IH [OF wf1 this] obtain d2 out2 where
      r2: "detector_removeMarkets cfg xs d1 = Inr (d2, out2)"
      and m2: "markets d2 (marketId m) = None" "stats d2 (marketId m) = None"
        "windows d2 (marketId m) = None" "tokenToMarket d2 (yesTokenId m) = None"
        "tokenToMarket d2 (noTokenId m) = None"
      by blast
    have "detector_removeMarkets cfg (x # xs) d = Inr (d2, out1 @ out2)"
      using r1 r2 by simp
    with m2 show ?thesis by blast
  qed
qed

lemma removeMarkets_window:
  "dom (windows d) \<subseteq> dom (stats d) \<Longrightarrow> m \<in> set ms \<Longrightarrow>
   windows d (marketId m) = Some win \<Longrightarrow> MIN_ARB_TICKS cfg \<le> int (length (spreads win)) \<Longrightarrow>
   \<exists>d' out aw. detector_removeMarkets cfg ms d = Inr (d', out)
      \<and> filter (\<lambda>x. emit_marketId x = marketId m) out = [Window aw]
      \<and> w_marketId aw = marketId m
      \<and> w_tickCount aw = length (spreads win)
      \<and> w_openCombined aw = openCombined win
      \<and> w_closeCombined aw = last_combined d (marketId m)
      \<and> w_windowStart aw = startTs win \<and> w_windowEnd aw = lastArbTickTs win
      \<and> w_peakSpread aw = Math_max (spreads win)
      \<and> w_avgSpread aw = average (spreads win)"
proof (induction ms arbitrary: d)
  case Nil
  then show ?case by simp
next
  case (Cons x xs)
  let ?mid = "marketId m"
  from remove_market_spec [OF Cons.prems(1), of cfg x]
  obtain d1 out1 where r1: "remove_market cfg x d = Inr (d1, out1)"
    and m1: "markets d1 = (markets d)(marketId x := None)"
      "stats d1 = (stats d)(marketId x := None)"
      "windows d1 = (windows d)(marketId x := None)"
      "tokenToMarket d1 = (tokenToMarket d)(yesTokenId x := None, noTokenId x := None)"
    and o1: "case windows d (marketId x) of
                None \<Rightarrow> out1 = []
              | Some win \<Rightarrow>
                  if int (length (spreads win)) < MIN_ARB_TICKS cfg then out1 = []
                  else \<exists>aw. out1 = [Window aw] \<and> w_marketId aw = marketId x
                         \<and> w_tickCount aw = length (spreads win)
                         \<and> w_openCombined aw = openCombined win
                         \<and> w_closeCombined aw = last_combined d (marketId x)
                         \<and> w_windowStart aw = startTs win \<and> w_windowEnd aw = lastArbTickTs win
                         \<and> w_peakSpread aw = Math_max (spreads win)
                         \<and> w_avgSpread aw = average (spreads win)"
    by blast
  have wf1: "dom (windows d1) \<subseteq> dom (stats d1)" using Cons.prems(1) m1 by auto
  show ?case
  proof (cases "marketId x = ?mid")
    case True
    from o1 True Cons.prems(3,4) obtain aw where aw: "out1 = [Window aw]"
      "w_marketId aw = ?mid" "w_tickCount aw = length (spreads win)"
      "w_openCombined aw = openCombined win" "w_closeCombined aw = last_combined d ?mid"
      "w_windowStart aw = startTs win" "w_windowEnd aw = lastArbTickTs win"
      "w_peakSpread aw = Math_max (spreads win)" "w_avgSpread aw = average (spreads win)"
      by auto
    from removeMarkets_shrinks [OF wf1, of cfg xs] obtain d2 out2 where
      r2: "detector_removeMarkets cfg xs d1 = Inr (d2, out2)"
      and f2: "\<forall>k. windows d1 k = None \<longrightarrow> filter (\<lambda>x. emit_marketId x = k) out2 = []"
      by blast
    have "windows d1 ?mid = None" using m1 True by simp
    with f2 have "filter (\<lambda>x. emit_marketId x = ?mid) out2 = []" by blast
    with aw have "filter (\<lambda>x. emit_marketId x = ?mid) (out1 @ out2) = [Window aw]" by simp
    moreover have "detector_removeMarkets cfg (x # xs) d = Inr (d2, out1 @ out2)"
      using r1 r2 by simp
    ultimately show ?thesis using aw(2-) by blast
  next
    case False
    then have "m \<noteq> x" by blast
    with Cons.prems(2) have in_xs: "m \<in> set xs" by simp
    have w1: "windows d1 ?mid = Some win" using m1 False Cons.prems(3) by simp
    have lc: "last_combined d1 ?mid = last_combined d ?mid"
      using m1 False by (simp add: last_combined_def)
    from Cons.IH [OF wf1 in_xs w1 Cons.prems(4)] obtain d2 out2 aw where
      r2: "detector_removeMarkets cfg xs d1 = Inr (d2, out2)"
      and f2: "filter (\<lambda>x. emit_marketId x = ?mid) out2 = [Window aw]"
      and aw: "w_marketId aw = ?mid" "w_tickCount aw = length (spreads win)"
        "w_openCombined aw = openCombined win" "w_closeCombined aw = last_combined d1 ?mid"
        "w_windowStart aw = startTs win" "w_windowEnd aw = lastArbTickTs win"
        "w_peakSpread aw = Math_max (spreads win)" "w_avgSpread aw = average (spreads win)"
      by blast
    have "filter (\<lambda>x. emit_marketId x = ?mid) out1 = []"
      using o1 False by (cases "windows d (marketId x)") (auto split: if_splits)
    with f2 have "filter (\<lambda>x. emit_marketId x = ?mid) (out1 @ out2) = [Window aw]" by simp
    moreover have "detector_removeMarkets cfg (x # xs) d = Inr (d2, out1 @ out2)"
      using r1 r2 by simp
    moreover have "w_closeCombined aw = last_combined d ?mid" using aw(4) lc by simp
    ultimately show ?thesis using aw(1-3,5-) by blast
  qed
qed

text \<open>
  C3: from a detector whose windows all belong to markets with statistics, \<^verbatim>\<open>removeMarkets\<close>
  of a list that holds market \<open>m\<close>, while \<open>m\<close> has an active window with at least
  \<^verbatim>\<open>MIN_ARB_TICKS\<close> spreads, does not throw and calls \<^verbatim>\<open>onWindow\<close> exactly once for \<open>m\<close>. The
  record closes at the last known combined value (\<^verbatim>\<open>currentCombined\<close> of the market's
  statistics, 1.0 when there is none) and carries what the window recorded: opening
  combined, tick count, peak and average spread, first and last arbitrage time. Afterwards
  \<^verbatim>\<open>markets\<close>, \<^verbatim>\<open>stats\<close> and \<^verbatim>\<open>windows\<close> have no entry for the market and \<^verbatim>\<open>tokenToMarket\<close>
  none for its two tokens.
\<close>

theorem C3_removeMarkets_closes_active_window:
  assumes "dom (windows d) \<subseteq> dom (stats d)" and "m \<in> set ms"
    and "windows d (marketId m) = Some win"
    and "MIN_ARB_TICKS cfg \<le> int (length (spreads win))"
  shows "\<exists>d' out aw. detector_removeMarkets cfg ms d = Inr (d', out)
      \<and> filter (\<lambda>x. emit_marketId x = marketId m) out = [Window aw]
      \<and> w_marketId aw = marketId m
      \<and> w_closeCombined aw = last_combined d (marketId m)
      \<and> w_openCombined aw = openCombined win
      \<and> w_tickCount aw = length (spreads win)
      \<and> w_peakSpread aw = Math_max (spreads win)
      \<and> w_avgSpread aw = average (spreads win)
      \<and> w_windowStart aw = startTs win \<and> w_windowEnd aw = lastArbTickTs win
      \<and> markets d' (marketId m) = None \<and> stats d' (marketId m) = None
      \<and> windows d' (marketId m) = None
      \<and> tokenToMarket d' (yesTokenId m) = None \<and> tokenToMarket d' (noTokenId m) = None"
proof -
  from removeMarkets_window [OF assms, of ] obtain d' out aw where
    r: "detector_removeMarkets cfg ms d = Inr (d', out)"
    and w: "filter (\<lambda>x. emit_marketId x = marketId m) out = [Window aw]"
      "w_marketId aw = marketId m" "w_tickCount aw = length (spreads win)"
      "w_openCombined aw = openCombined win" "w_closeCombined aw = last_combined d (marketId m)"
      "w_windowStart aw = startTs win" "w_windowEnd aw = lastArbTickTs win"
      "w_peakSpread aw = Math_max (spreads win)" "w_avgSpread aw = average (spreads win)"
    by blast
  from removeMarkets_absent [OF assms(1,2), of cfg] r
  have a: "markets d' (marketId m) = None" "stats d' (marketId m) = None"
    "windows d' (marketId m) = None"
    "tokenToMarket d' (yesTokenId m) = None" "tokenToMarket d' (noTokenId m) = None"
    by auto
  from r w a show ?thesis by (intro exI [where x = d'] exI [where x = out] exI [where x = aw]) simp
qed

lemma detector_open_maps:
  "windows detector_open = [''A'' \<mapsto> window_open]"
  "dom (stats detector_open) = {''A''}"
  "last_combined detector_open ''A'' = 0.96"
  by (simp_all add: detector_open_def three_arb_ticks_def window_open_def last_combined_def
        eval_detector)

text \<open>
  An instance of C3: the market is removed after three arbitrage ticks, the last at
  combined 0.96.
\<close>

theorem C3_removeMarkets_witness:
  "dom (windows detector_open) \<subseteq> dom (stats detector_open) \<and> market_A \<in> set [market_A]
   \<and> windows detector_open (marketId market_A) = Some window_open
   \<and> MIN_ARB_TICKS default_config \<le> int (length (spreads window_open))
   \<and> (\<exists>d' out aw. detector_removeMarkets default_config [market_A] detector_open = Inr (d', out)
        \<and> filter (\<lambda>x. emit_marketId x = ''A'') out = [Window aw]
        \<and> w_closeCombined aw = 0.96 \<and> w_openCombined aw = 0.95 \<and> w_tickCount aw = 3
        \<and> markets d' ''A'' = None \<and> stats d' ''A'' = None \<and> windows d' ''A'' = None
        \<and> tokenToMarket d' ''Y'' = None \<and> tokenToMarket d' ''N'' = None)"
proof -
  have h1: "dom (windows detector_open) \<subseteq> dom (stats detector_open)"
    by (simp add: detector_open_maps)
  have h2: "market_A \<in> set [market_A]" by simp
  have h3: "windows detector_open (marketId market_A) = Some window_open"
    by (simp add: detector_open_maps market_A_def)
  have h4: "MIN_ARB_TICKS default_config \<le> int (length (spreads window_open))"
    by (simp add: default_config_def window_open_def)
  from C3_removeMarkets_closes_active_window [OF h1 h2 h3 h4]
  obtain d' out aw where
    r: "detector_removeMarkets default_config [market_A] detector_open = Inr (d', out)"
    and w: "filter (\<lambda>x. emit_marketId x = marketId market_A) out = [Window aw]"
      "w_closeCombined aw = last_combined detector_open (marketId market_A)"
      "w_openCombined aw = openCombined window_open"
      "w_tickCount aw = length (spreads window_open)"
    and a: "markets d' (marketId market_A) = None" "stats d' (marketId market_A) = None"
      "windows d' (marketId market_A) = None"
      "tokenToMarket d' (yesTokenId market_A) = None"
      "tokenToMarket d' (noTokenId market_A) = None"
    by blast
  have ids: "marketId market_A = ''A''" "yesTokenId market_A = ''Y''"
    "noTokenId market_A = ''N''" by (simp_all add: market_A_def)
  from w have w': "filter (\<lambda>x. emit_marketId x = ''A'') out = [Window aw]"
    "w_closeCombined aw = 0.96" "w_openCombined aw = 0.95" "w_tickCount aw = 3"
    by (simp_all add: ids detector_open_maps window_open_def)
  from a have a': "markets d' ''A'' = None" "stats d' ''A'' = None" "windows d' ''A'' = None"
    "tokenToMarket d' ''Y'' = None" "tokenToMarket d' ''N'' = None"
    by (simp_all add: ids)
  from r w' a' have "\<exists>d' out aw.
        detector_removeMarkets default_config [market_A] detector_open = Inr (d', out)
        \<and> filter (\<lambda>x. emit_marketId x = ''A'') out = [Window aw]
        \<and> w_closeCombined aw = 0.96 \<and> w_openCombined aw = 0.95 \<and> w_tickCount aw = 3
        \<and> markets d' ''A'' = None \<and> stats d' ''A'' = None \<and> windows d' ''A'' = None
        \<and> tokenToMarket d' ''Y'' = None \<and> tokenToMarket d' ''N'' = None"
    by (intro exI [where x = d'] exI [where x = out] exI [where x = aw]) simp
  with h1 h2 h3 h4 show ?thesis by (intro conjI)
qed

lemma detector_wf_new: "detector_wf new_ArbDetector"
  by (simp add: detector_wf_def new_ArbDetector_def)

lemma detector_wf_add_market: "detector_wf d \<Longrightarrow> detector_wf (add_market m d)"
  by (auto simp: detector_wf_def add_market_def)

lemma detector_wf_addMarkets: "detector_wf d \<Longrightarrow> detector_wf (detector_addMarkets ms d)"
  unfolding detector_addMarkets_def
  by (induction ms arbitrary: d) (simp_all add: detector_wf_add_market)

lemma detector_wf_check:
  assumes "detector_wf d" and "check cfg w now ts tok d = Inr (d', out)"
  shows "detector_wf d'"
proof -
  let ?dropped = "tokenToMarket d tok = None
     \<or> (\<exists>mid. tokenToMarket d tok = Some mid \<and> (mid = [] \<or> markets d mid = None))
     \<or> (\<exists>mid m. tokenToMarket d tok = Some mid \<and> markets d mid = Some m
           \<and> (watcher_getBestAsk w (yesTokenId m) = None
              \<or> watcher_getBestAsk w (noTokenId m) = None))"
  show ?thesis
  proof (cases ?dropped)
    case True
    then have "check cfg w now ts tok d = Inr (d, [])" by (rule check_dropped)
    with assms show ?thesis by simp
  next
    case False
    then obtain mid where p1: "tokenToMarket d tok = Some mid"
      by (cases "tokenToMarket d tok") auto
    with False have p2: "mid \<noteq> []" by auto
    from False p1 obtain m where p3: "markets d mid = Some m"
      by (cases "markets d mid") auto
    from False p1 p3 obtain ya where p4: "watcher_getBestAsk w (yesTokenId m) = Some ya"
      by (cases "watcher_getBestAsk w (yesTokenId m)") auto
    from False p1 p3 obtain na where p5: "watcher_getBestAsk w (noTokenId m) = Some na"
      by (cases "watcher_getBestAsk w (noTokenId m)") auto
    from p3 assms(1) have st: "stats d mid \<noteq> None" by (auto simp: detector_wf_def)
    from check_processed [OF p1 p2 p3 st p4 p5, of cfg now ts] assms(2)
    have keep: "markets d' = markets d" "dom (stats d') = dom (stats d)"
      "\<forall>x. x \<noteq> mid \<longrightarrow> windows d' x = windows d x"
      by auto
    have "dom (windows d') \<subseteq> dom (stats d')"
    proof
      fix x assume x: "x \<in> dom (windows d')"
      show "x \<in> dom (stats d')"
      proof (cases "x = mid")
        case True
        with st keep(2) show ?thesis by auto
      next
        case False
        with keep(3) x have "x \<in> dom (windows d)" by auto
        with assms(1) keep(2) show ?thesis by (auto simp: detector_wf_def)
      qed
    qed
    moreover have "dom (markets d') \<subseteq> dom (stats d')"
      using assms(1) keep by (simp add: detector_wf_def)
    ultimately show ?thesis by (simp add: detector_wf_def)
  qed
qed

lemma detector_wf_remove_market:
  assumes "detector_wf d" and "remove_market cfg x d = Inr (d', out)"
  shows "detector_wf d'"
proof -
  from assms(1) have "dom (windows d) \<subseteq> dom (stats d)" by (simp add: detector_wf_def)
  from remove_market_spec [OF this, of cfg x] assms(2)
  have "markets d' = (markets d)(marketId x := None)"
    "stats d' = (stats d)(marketId x := None)"
    "windows d' = (windows d)(marketId x := None)"
    by auto
  with assms(1) show ?thesis by (auto simp: detector_wf_def)
qed

end
